theory Spec2Isabelle
  imports Complex_Main "HOL-Library.AList" "HOL-Library.Word"
begin

section \<open>JavaScript values and text\<close>

text \<open>
  The intake tool keeps its whole state in JSON documents, so the values that the code
  handles are JSON values. A property that is absent from an object (JavaScript's
  \<open>undefined\<close>) is \<open>None\<close> of \<open>json option\<close>. Text is a list of code units below 256.
  The numbers these documents hold are counters, so a number is an \<open>int\<close>.
\<close>

datatype json =
    JNull
  | JBool bool
  | JNum int
  | JStr string
  | JArr "json list"
  | JObj "(string \<times> json) list"

text \<open>The white space of \<open>String.prototype.trim\<close> and of the regular expression class
  \<open>\s\<close>, among the code units below 256: tab, line feed, vertical tab, form feed,
  carriage return, space and the no-break space.\<close>

definition is_space :: "char \<Rightarrow> bool" where
  "is_space c = (c \<in> set [CHR 0x09, CHR 0x0A, CHR 0x0B, CHR 0x0C, CHR 0x0D, CHR 0x20, CHR 0xA0])"

definition js_trim :: "string \<Rightarrow> string" where
  "js_trim s = rev (dropWhile is_space (rev (dropWhile is_space s)))"

definition digits10 :: string where
  "digits10 = ''0123456789''"

definition hex_lower :: string where
  "hex_lower = ''0123456789abcdef''"

text \<open>\<open>String(n)\<close> for an integer \<open>n\<close>: its decimal numeral.\<close>

fun show_nat :: "nat \<Rightarrow> string" where
  "show_nat n = (if n < 10 then [digits10 ! n] else show_nat (n div 10) @ [digits10 ! (n mod 10)])"

declare show_nat.simps [simp del]

definition show_int :: "int \<Rightarrow> string" where
  "show_int i = (if i < 0 then CHR ''-'' # show_nat (nat (- i)) else show_nat (nat i))"

text \<open>\<open>s.padStart(2, "0")\<close>.\<close>

definition padStart2 :: "string \<Rightarrow> string" where
  "padStart2 s = replicate (2 - length s) (CHR ''0'') @ s"

section \<open>Regular expressions\<close>

text \<open>
  The patterns of the source use literals, character classes, sequence, alternation,
  \<open>?\<close>, \<open>+\<close> and bounded repetition, with or without the flag \<open>i\<close>. A pattern is a
  value of \<open>re\<close>; it is matched by derivatives. With the flag \<open>i\<close> a code unit and
  the members of a class are compared after canonicalisation, which maps the letters
  \<open>a\<close> to \<open>z\<close> to upper case. A pattern between \<open>^\<close> and \<open>$\<close> has to match the whole
  text (\<open>re_full\<close>); a pattern without anchors is searched for at every position
  (\<open>re_search\<close>).
\<close>

datatype re =
    Never
  | Empty
  | Cls "char list"
  | Cat re re
  | Or re re
  | Many re

fun upper_of :: "(char \<times> char) list \<Rightarrow> char \<Rightarrow> char" where
  "upper_of [] c = c"
| "upper_of ((l, u) # ps) c = (if c = l then u else upper_of ps c)"

definition canon :: "char \<Rightarrow> char" where
  "canon c = upper_of (zip ''abcdefghijklmnopqrstuvwxyz'' ''ABCDEFGHIJKLMNOPQRSTUVWXYZ'') c"

definition cls_has :: "bool \<Rightarrow> char list \<Rightarrow> char \<Rightarrow> bool" where
  "cls_has icase cs c = (if icase then canon c \<in> set (map canon cs) else c \<in> set cs)"

fun nullable :: "re \<Rightarrow> bool" where
  "nullable Never = False"
| "nullable Empty = True"
| "nullable (Cls cs) = False"
| "nullable (Cat r s) = (nullable r \<and> nullable s)"
| "nullable (Or r s) = (nullable r \<or> nullable s)"
| "nullable (Many r) = True"

fun deriv :: "bool \<Rightarrow> char \<Rightarrow> re \<Rightarrow> re" where
  "deriv icase c Never = Never"
| "deriv icase c Empty = Never"
| "deriv icase c (Cls cs) = (if cls_has icase cs c then Empty else Never)"
| "deriv icase c (Cat r s) =
     (if nullable r then Or (Cat (deriv icase c r) s) (deriv icase c s)
      else Cat (deriv icase c r) s)"
| "deriv icase c (Or r s) = Or (deriv icase c r) (deriv icase c s)"
| "deriv icase c (Many r) = Cat (deriv icase c r) (Many r)"

fun re_full :: "bool \<Rightarrow> re \<Rightarrow> string \<Rightarrow> bool" where
  "re_full icase r [] = nullable r"
| "re_full icase r (c # cs) = re_full icase (deriv icase c r) cs"

text \<open>Some prefix of the text matches.\<close>

fun re_prefix :: "bool \<Rightarrow> re \<Rightarrow> string \<Rightarrow> bool" where
  "re_prefix icase r [] = nullable r"
| "re_prefix icase r (c # cs) = (nullable r \<or> re_prefix icase (deriv icase c r) cs)"

text \<open>Some part of the text matches, starting at any position.\<close>

fun re_search :: "bool \<Rightarrow> re \<Rightarrow> string \<Rightarrow> bool" where
  "re_search icase r [] = nullable r"
| "re_search icase r (c # cs) = (re_prefix icase r (c # cs) \<or> re_search icase r cs)"

fun lit :: "string \<Rightarrow> re" where
  "lit [] = Empty"
| "lit (c # cs) = Cat (Cls [c]) (lit cs)"

fun rep :: "nat \<Rightarrow> re \<Rightarrow> re" where
  "rep 0 r = Empty"
| "rep (Suc n) r = Cat r (rep n r)"

definition some :: "re \<Rightarrow> re" where
  "some r = Cat r (Many r)"

definition opt :: "re \<Rightarrow> re" where
  "opt r = Or r Empty"

definition cls_space :: re where
  "cls_space = Cls [CHR 0x09, CHR 0x0A, CHR 0x0B, CHR 0x0C, CHR 0x0D, CHR 0x20, CHR 0xA0]"

section \<open>Worksheet identifiers (id.js)\<close>

text \<open>
  A \<open>Date\<close> is either invalid, and then every getter returns \<open>NaN\<close>, or it has a UTC
  year, a month counted from 0 and a day of the month.
\<close>

datatype js_date = InvalidDate | UtcDate int nat nat

fun formatUtcDate :: "js_date \<Rightarrow> string" where
  "formatUtcDate InvalidDate = ''NaN'' @ padStart2 ''NaN'' @ padStart2 ''NaN''"
| "formatUtcDate (UtcDate year month day) =
     show_int year @ padStart2 (show_nat (month + 1)) @ padStart2 (show_nat day)"

text \<open>\<open>buffer.toString("hex")\<close>: two lower-case hexadecimal digits for each byte.\<close>

definition hex_byte :: "8 word \<Rightarrow> string" where
  "hex_byte b = [hex_lower ! (unat b div 16), hex_lower ! (unat b mod 16)]"

definition to_hex :: "8 word list \<Rightarrow> string" where
  "to_hex bs = concat (map hex_byte bs)"

text \<open>\<open>generateWorksheetId(now)\<close>; \<open>rnd\<close> is the buffer that \<open>crypto.randomBytes(4)\<close>
  returns.\<close>

definition generateWorksheetId :: "js_date \<Rightarrow> 8 word list \<Rightarrow> string" where
  "generateWorksheetId now rnd =
     (let datePart = formatUtcDate now;
          randomPart = take 6 (to_hex rnd)
      in ''ws_'' @ datePart @ ''_'' @ randomPart)"

text \<open>The pattern \<open>/^ws_\d{8}_[a-f0-9]{6}$/i\<close>.\<close>

definition worksheet_id_re :: re where
  "worksheet_id_re =
     Cat (lit ''ws_'') (Cat (rep 8 (Cls digits10)) (Cat (lit ''_'') (rep 6 (Cls ''abcdef0123456789''))))"

fun isWorksheetId :: "json option \<Rightarrow> bool" where
  "isWorksheetId (Some (JStr s)) = re_full True worksheet_id_re s"
| "isWorksheetId _ = False"

text \<open>The form that the specification gives: \<open>ws_\<close>, eight decimal digits, an underscore
  and six lower-case hexadecimal digits.\<close>

definition spec_id_shape :: "string \<Rightarrow> bool" where
  "spec_id_shape s =
     (length s = 18 \<and> take 3 s = ''ws_'' \<and> list_all (\<lambda>c. c \<in> set digits10) (take 8 (drop 3 s))
      \<and> take 1 (drop 11 s) = ''_'' \<and> list_all (\<lambda>c. c \<in> set hex_lower) (drop 12 s))"

text \<open>The same form with letters in either case.\<close>

definition id_shape_icase :: "string \<Rightarrow> bool" where
  "id_shape_icase s =
     (length s = 18 \<and> map canon (take 3 s) = ''WS_'' \<and> list_all (\<lambda>c. c \<in> set digits10) (take 8 (drop 3 s))
      \<and> take 1 (drop 11 s) = ''_'' \<and> list_all (\<lambda>c. canon c \<in> set ''0123456789ABCDEF'') (drop 12 s))"

section \<open>Errors\<close>

text \<open>
  A thrown value is an error object: its \<open>name\<close>, its \<open>code\<close> (set by the file system
  calls of Node.js, absent otherwise) and its \<open>message\<close>. A function that can throw
  returns \<open>error + 'a\<close>; one that also writes files returns the store it leaves behind
  beside it, because a throw does not undo the writes made before it.
\<close>

datatype error = Err string "string option" string

fun err_code :: "error \<Rightarrow> string option" where
  "err_code (Err n c m) = c"

fun err_message :: "error \<Rightarrow> string" where
  "err_message (Err n c m) = m"

text \<open>\<open>String(error)\<close>.\<close>

fun error_to_String :: "error \<Rightarrow> string" where
  "error_to_String (Err n c m) = (if m = [] then n else if n = [] then m else n @ '': '' @ m)"

definition new_Error :: "string \<Rightarrow> error" where
  "new_Error msg = Err ''Error'' None msg"

definition system_error :: "string \<Rightarrow> error" where
  "system_error code = Err ''Error'' (Some code) (code @ '': file system call failed'')"

definition type_error :: error where
  "type_error = Err ''TypeError'' None ''Cannot use a property of null or of a primitive value''"

definition syntax_error :: error where
  "syntax_error = Err ''SyntaxError'' None ''Unexpected token in JSON''"

section \<open>Operations of JavaScript on values\<close>

fun truthy :: "json option \<Rightarrow> bool" where
  "truthy None = False"
| "truthy (Some JNull) = False"
| "truthy (Some (JBool b)) = b"
| "truthy (Some (JNum n)) = (n \<noteq> 0)"
| "truthy (Some (JStr s)) = (s \<noteq> [])"
| "truthy (Some (JArr xs)) = True"
| "truthy (Some (JObj kv)) = True"

text \<open>
  \<open>v.k\<close> for a value \<open>v\<close> other than \<open>null\<close> and a property name \<open>k\<close> of these
  documents (\<open>jobs\<close>, \<open>worksheet_id\<close>, \<open>state\<close>, \<open>attempts\<close>, \<open>started_at\<close>,
  \<open>queued_at\<close>, \<open>last_error\<close>, \<open>uploaded_at\<close>, \<open>integrated_at\<close>): only an object has
  such a property. Reading a property of \<open>null\<close> throws; each place where the source can
  do that is a branch of its model.
\<close>

fun field :: "json \<Rightarrow> string \<Rightarrow> json option" where
  "field (JObj kv) k = map_of kv k"
| "field _ k = None"

text \<open>The own enumerable properties that \<open>{...v}\<close> copies.\<close>

fun own_props :: "json \<Rightarrow> (string \<times> json) list" where
  "own_props (JObj kv) = kv"
| "own_props (JArr xs) = zip (map show_nat [0..<length xs]) xs"
| "own_props (JStr s) = zip (map show_nat [0..<length s]) (map (\<lambda>c. JStr [c]) s)"
| "own_props _ = []"

text \<open>\<open>{...a, ...b}\<close>: the properties of \<open>b\<close> are assigned over those of \<open>a\<close>.\<close>

definition assign :: "(string \<times> json) list \<Rightarrow> (string \<times> json) list \<Rightarrow> (string \<times> json) list" where
  "assign a b = fold (\<lambda>(k, v). AList.update k v) b a"

text \<open>An object literal: \<open>JSON.stringify\<close> leaves out a property whose value is
  \<open>undefined\<close>.\<close>

fun literal :: "(string \<times> json option) list \<Rightarrow> (string \<times> json) list" where
  "literal [] = []"
| "literal ((k, None) # kvs) = literal kvs"
| "literal ((k, Some v) # kvs) = (k, v) # literal kvs"

fun join_comma :: "string list \<Rightarrow> string" where
  "join_comma [] = []"
| "join_comma [s] = s"
| "join_comma (s # t # ss) = s @ '','' @ join_comma (t # ss)"

text \<open>\<open>String(v)\<close>.\<close>

fun js_String :: "json \<Rightarrow> string" where
  "js_String JNull = ''null''"
| "js_String (JBool b) = (if b then ''true'' else ''false'')"
| "js_String (JNum n) = show_int n"
| "js_String (JStr s) = s"
| "js_String (JArr xs) = join_comma (map (\<lambda>x. if x = JNull then [] else js_String x) xs)"
| "js_String (JObj kv) = ''[object Object]''"

text \<open>\<open>String(v || "")\<close>.\<close>

definition String_or_empty :: "json option \<Rightarrow> string" where
  "String_or_empty v = (if truthy v then js_String (the v) else [])"

text \<open>\<open>Number.isFinite(v) ? v : d\<close>: a number of these documents is finite.\<close>

fun finite_or :: "json option \<Rightarrow> int \<Rightarrow> int" where
  "finite_or (Some (JNum n)) d = n"
| "finite_or _ d = d"

fun is_finite :: "json option \<Rightarrow> bool" where
  "is_finite (Some (JNum n)) = True"
| "is_finite _ = False"

text \<open>\<open>[...new Set(xs)]\<close>: the first occurrence of each element, in order.\<close>

fun dedupe :: "'a list \<Rightarrow> 'a list" where
  "dedupe [] = []"
| "dedupe (x # xs) = x # dedupe (filter (\<lambda>y. y \<noteq> x) xs)"

definition ends_with :: "string \<Rightarrow> string \<Rightarrow> bool" where
  "ends_with suffix s = (length suffix \<le> length s \<and> drop (length s - length suffix) s = suffix)"

section \<open>The storage root\<close>

text \<open>
  The text of a file either parses as JSON to a value or does not. A path of the storage
  root holds a file, a file that cannot be read, or a directory. The store has the
  pending list \<open>queue/pending.json\<close>, the entries of \<open>metadata/\<close> and of \<open>intake/\<close> by
  name and in the order in which \<open>readdir\<close> lists them, and the uploaded temporary files
  with their modification times. An entry of \<open>intake/\<close> is a file or a directory, which
  holds \<open>original.zip\<close> with its modification time or not. Worksheet identifiers are
  file names: they contain no path separator. A directory that is missing behaves like
  an empty one in all of the code below, so directories are not optional.
\<close>

datatype content = Parses json | Garbled

datatype node = File content | Locked | Directory

datatype intake_node = IntakeFile | IntakeDir "string option"

record store =
  queue_file :: "node option"
  metadata_dir :: "(string \<times> node) list"
  intake_dir :: "(string \<times> intake_node) list"
  temp_files :: "(string \<times> string) list"

section \<open>Reading and writing JSON files (fs-json.js)\<close>

fun fs_readFile :: "node option \<Rightarrow> error + content" where
  "fs_readFile None = Inl (system_error ''ENOENT'')"
| "fs_readFile (Some (File t)) = Inr t"
| "fs_readFile (Some Locked) = Inl (system_error ''EACCES'')"
| "fs_readFile (Some Directory) = Inl (system_error ''EISDIR'')"

fun JSON_parse :: "content \<Rightarrow> error + json" where
  "JSON_parse (Parses v) = Inr v"
| "JSON_parse Garbled = Inl syntax_error"

definition readJson :: "node option \<Rightarrow> json \<Rightarrow> error + json" where
  "readJson file fallback =
     (case (case fs_readFile file of Inl e \<Rightarrow> Inl e | Inr raw \<Rightarrow> JSON_parse raw) of
        Inr v \<Rightarrow> Inr v
      | Inl e \<Rightarrow> if err_code e = Some ''ENOENT'' then Inr fallback else Inl e)"

text \<open>\<open>writeJsonAtomic\<close> writes a temporary file and renames it over the destination; the
  rename fails when the destination is a directory.\<close>

fun writeJsonAtomic :: "node option \<Rightarrow> json \<Rightarrow> error + node" where
  "writeJsonAtomic (Some Directory) v = Inl (system_error ''EISDIR'')"
| "writeJsonAtomic _ v = Inr (File (Parses v))"

definition fileExists :: "'a option \<Rightarrow> bool" where
  "fileExists file = (file \<noteq> None)"

definition metadata_path :: "string \<Rightarrow> string" where
  "metadata_path worksheetId = worksheetId @ ''.json''"

definition metadata_file :: "store \<Rightarrow> string \<Rightarrow> node option" where
  "metadata_file s worksheetId = map_of (metadata_dir s) (metadata_path worksheetId)"

definition write_metadata :: "string \<Rightarrow> json \<Rightarrow> store \<Rightarrow> (error + unit) \<times> store" where
  "write_metadata worksheetId v s =
     (case writeJsonAtomic (metadata_file s worksheetId) v of
        Inl e \<Rightarrow> (Inl e, s)
      | Inr n \<Rightarrow> (Inr (), s\<lparr>metadata_dir := AList.update (metadata_path worksheetId) n (metadata_dir s)\<rparr>))"

definition write_queue :: "json \<Rightarrow> store \<Rightarrow> (error + unit) \<times> store" where
  "write_queue v s =
     (case writeJsonAtomic (queue_file s) v of
        Inl e \<Rightarrow> (Inl e, s)
      | Inr n \<Rightarrow> (Inr (), s\<lparr>queue_file := Some n\<rparr>))"

definition empty_queue :: json where
  "empty_queue = JObj [(''jobs'', JArr [])]"

section \<open>The job repository (repository.js)\<close>

record upload =
  worksheetId :: string
  title :: "json option"
  ownerEmail :: "json option"
  originalFilename :: "json option"
  tempFilePath :: string

text \<open>\<open>ensureDir(worksheetDir)\<close> and \<open>moveFileSafe(tempFilePath, artifactAbsolutePath)\<close>.
  The directory is made before the rename is tried. A rename across volumes (\<open>EXDEV\<close>)
  is replaced by a copy and ends in the same store.\<close>

definition store_artifact :: "upload \<Rightarrow> store \<Rightarrow> (error + unit) \<times> store" where
  "store_artifact u s =
     (case map_of (intake_dir s) (worksheetId u) of
        Some IntakeFile \<Rightarrow> (Inl (system_error ''EEXIST''), s)
      | found \<Rightarrow>
          (let archive = (case found of Some (IntakeDir z) \<Rightarrow> z | _ \<Rightarrow> None);
               s1 = s\<lparr>intake_dir := AList.update (worksheetId u) (IntakeDir archive) (intake_dir s)\<rparr>
           in case map_of (temp_files s) (tempFilePath u) of
                None \<Rightarrow> (Inl (system_error ''ENOENT''), s1)
              | Some mtime \<Rightarrow>
                  (Inr (), s\<lparr>intake_dir := AList.update (worksheetId u) (IntakeDir (Some mtime)) (intake_dir s),
                             temp_files := AList.delete (tempFilePath u) (temp_files s)\<rparr>)))"

definition artifact_path :: "string \<Rightarrow> string" where
  "artifact_path wid = ''storage/intake/'' @ wid @ ''/original.zip''"

definition fresh_metadata :: "string \<Rightarrow> upload \<Rightarrow> (string \<times> json) list" where
  "fresh_metadata uploadedAt u = literal
     [(''worksheet_id'', Some (JStr (worksheetId u))),
      (''title'', title u),
      (''owner_email'', ownerEmail u),
      (''original_filename'', originalFilename u),
      (''artifact_path'', Some (JStr (artifact_path (worksheetId u)))),
      (''state'', Some (JStr ''queued'')),
      (''uploaded_at'', Some (JStr uploadedAt)),
      (''integrated_at'', Some JNull),
      (''last_error'', Some JNull)]"

text \<open>\<open>jobs.findIndex((job) => job.worksheet_id === worksheetId)\<close>: the callback throws
  at an entry that is \<open>null\<close>, unless a match was found before it.\<close>

fun findIndex :: "string \<Rightarrow> json list \<Rightarrow> error + nat option" where
  "findIndex wid [] = Inr None"
| "findIndex wid (job # jobs) =
     (if job = JNull then Inl type_error
      else if field job ''worksheet_id'' = Some (JStr wid) then Inr (Some 0)
      else case findIndex wid jobs of
             Inl e \<Rightarrow> Inl e
           | Inr None \<Rightarrow> Inr None
           | Inr (Some i) \<Rightarrow> Inr (Some (Suc i)))"

text \<open>\<open>jobs.find((job) => job.worksheet_id === worksheetId)\<close>.\<close>

fun find_job :: "string \<Rightarrow> json list \<Rightarrow> error + json option" where
  "find_job wid [] = Inr None"
| "find_job wid (job # jobs) =
     (if job = JNull then Inl type_error
      else if field job ''worksheet_id'' = Some (JStr wid) then Inr (Some job)
      else find_job wid jobs)"

text \<open>The array that \<open>queue.jobs\<close> is after \<open>if (!Array.isArray(queue.jobs)) queue.jobs = []\<close>,
  for a pending-list document that is an object.\<close>

definition jobs_of :: "(string \<times> json) list \<Rightarrow> json list" where
  "jobs_of kv = (case map_of kv ''jobs'' of Some (JArr jobs) \<Rightarrow> jobs | _ \<Rightarrow> [])"

definition nextJob :: "string \<Rightarrow> string \<Rightarrow> (string \<times> json) list" where
  "nextJob uploadedAt wid =
     [(''worksheet_id'', JStr wid), (''state'', JStr ''queued''), (''attempts'', JNum 0),
      (''queued_at'', JStr uploadedAt)]"

text \<open>
  Lines 60 to 76 of \<open>enqueueUploadedWorksheet\<close>, from the document read to the document
  written. The module is strict code: reading \<open>jobs\<close> of \<open>null\<close> throws, and so does
  setting \<open>jobs\<close> on a number, a string or a boolean. On a document that is an array
  \<open>jobs\<close> becomes a property that \<open>JSON.stringify\<close> does not write, so the array is
  written back as it was.
\<close>

fun upsert_job :: "string \<Rightarrow> string \<Rightarrow> json \<Rightarrow> error + json" where
  "upsert_job uploadedAt wid (JObj kv) =
     (let jobs = jobs_of kv in
      case findIndex wid jobs of
        Inl e \<Rightarrow> Inl e
      | Inr (Some existingIndex) \<Rightarrow>
          Inr (JObj (AList.update ''jobs''
                 (JArr (jobs[existingIndex :=
                    JObj (assign (own_props (jobs ! existingIndex)) (nextJob uploadedAt wid))])) kv))
      | Inr None \<Rightarrow>
          Inr (JObj (AList.update ''jobs'' (JArr (jobs @ [JObj (nextJob uploadedAt wid)])) kv)))"
| "upsert_job uploadedAt wid (JArr xs) = Inr (JArr xs)"
| "upsert_job uploadedAt wid _ = Inl type_error"

definition enqueueUploadedWorksheet :: "string \<Rightarrow> upload \<Rightarrow> store \<Rightarrow> (error + json) \<times> store" where
  "enqueueUploadedWorksheet uploadedAt u s =
     (case store_artifact u s of
        (Inl e, s1) \<Rightarrow> (Inl e, s1)
      | (Inr _, s1) \<Rightarrow>
          (let metadata = JObj (fresh_metadata uploadedAt u) in
           case write_metadata (worksheetId u) metadata s1 of
             (Inl e, s2) \<Rightarrow> (Inl e, s2)
           | (Inr _, s2) \<Rightarrow>
               (case readJson (queue_file s2) empty_queue of
                  Inl e \<Rightarrow> (Inl e, s2)
                | Inr queue \<Rightarrow>
                    (case upsert_job uploadedAt (worksheetId u) queue of
                       Inl e \<Rightarrow> (Inl e, s2)
                     | Inr queue' \<Rightarrow>
                         (case write_queue queue' s2 of
                            (Inl e, s3) \<Rightarrow> (Inl e, s3)
                          | (Inr _, s3) \<Rightarrow> (Inr metadata, s3))))))"

text \<open>\<open>ensureStorageLayout\<close> leaves the pending list alone when the file exists and
  writes an empty one otherwise.\<close>

definition ensureStorageLayout :: "store \<Rightarrow> (error + unit) \<times> store" where
  "ensureStorageLayout s =
     (if \<not> fileExists (queue_file s) then write_queue empty_queue s else (Inr (), s))"

record status =
  status_worksheet_id :: "json option"
  status_state :: string
  status_uploaded_at :: json
  status_integrated_at :: json
  status_last_error :: json

text \<open>\<open>typeof v === "string" && v.trim()\<close>, as a condition: the trimmed text when it is
  not empty.\<close>

fun trimmed_string :: "json option \<Rightarrow> string option" where
  "trimmed_string (Some (JStr s)) = (if js_trim s = [] then None else Some (js_trim s))"
| "trimmed_string _ = None"

text \<open>\<open>v ?? null\<close>.\<close>

fun or_null :: "json option \<Rightarrow> json" where
  "or_null None = JNull"
| "or_null (Some v) = v"

text \<open>\<open>getWorksheetStatus\<close> returns \<open>null\<close> (here \<open>None\<close>) or a status, or throws.\<close>

definition getWorksheetStatus :: "store \<Rightarrow> string \<Rightarrow> error + status option" where
  "getWorksheetStatus s wid =
     (if \<not> fileExists (metadata_file s wid) then Inr None
      else case readJson (metadata_file s wid) JNull of
        Inl e \<Rightarrow> Inl e
      | Inr metadata \<Rightarrow>
          if \<not> truthy (Some metadata) then Inr None
          else case readJson (queue_file s) empty_queue of
            Inl e \<Rightarrow> Inl e
          | Inr queue \<Rightarrow>
              if queue = JNull then Inl type_error
              else case (case field queue ''jobs'' of
                           Some (JArr jobs) \<Rightarrow> find_job wid jobs
                         | _ \<Rightarrow> Inr (Some JNull)) of
                Inl e \<Rightarrow> Inl e
              | Inr queueEntry \<Rightarrow>
                  (let entryState = (case queueEntry of None \<Rightarrow> None | Some j \<Rightarrow> field j ''state'');
                       state = (case trimmed_string (field metadata ''state'') of
                                  Some st \<Rightarrow> st
                                | None \<Rightarrow> (case trimmed_string entryState of
                                             Some st \<Rightarrow> st
                                           | None \<Rightarrow> ''queued''))
                   in Inr (Some \<lparr>status_worksheet_id = field metadata ''worksheet_id'',
                                 status_state = state,
                                 status_uploaded_at =
                                   (if truthy (field metadata ''uploaded_at'')
                                    then the (field metadata ''uploaded_at'') else JNull),
                                 status_integrated_at = or_null (field metadata ''integrated_at''),
                                 status_last_error = or_null (field metadata ''last_error'')\<rparr>)))"

section \<open>The queue worker (scripts/process_queue.js)\<close>

text \<open>
  What a run of the worker reads from its environment: the variables
  \<open>PROCESSING_STALE_MS\<close> and \<open>MAX_FAILED_ATTEMPTS\<close> after \<open>Number\<close> (a finite
  number, as a rational, or \<open>None\<close> where \<open>Number\<close> yields \<open>NaN\<close> or an infinity, as
  for a variable that is not set), the text of
  \<open>RETRY_FAILED_JOBS\<close> if it is set, the clock (\<open>Date.now()\<close> and
  \<open>new Date().toISOString()\<close>, read once for the run) and \<open>Date.parse\<close> on a text
  that is not empty, which yields \<open>None\<close> where JavaScript yields \<open>NaN\<close>.
  \<open>Date.parse("")\<close> is \<open>NaN\<close>.
\<close>

record env =
  PROCESSING_STALE_MS :: "rat option"
  RETRY_FAILED_JOBS :: "string option"
  MAX_FAILED_ATTEMPTS :: "rat option"
  now_ms :: int
  now_iso :: string
  Date_parse :: "string \<Rightarrow> int option"

definition js_Date_parse :: "env \<Rightarrow> string \<Rightarrow> int option" where
  "js_Date_parse c text = (if text = [] then None else Date_parse c text)"

definition RETRYABLE_FAILURE_PATTERNS :: "re list" where
  "RETRYABLE_FAILURE_PATTERNS =
     [Cat (lit ''ENOTFOUND'') (Cat (some cls_space) (lit ''registry.npmjs.org'')),
      Cat (lit ''ENOTFOUND'') (Cat (some cls_space) (lit ''api.openai.com'')),
      lit ''ETIMEDOUT'',
      lit ''ECONNRESET'',
      Cat (lit ''network request to http'') (Cat (opt (lit ''s'')) (lit ''://registry.npmjs.org''))]"

text \<open>\<open>parsePositiveInt\<close> on \<open>num = Number(value)\<close>: a number between 0 and 1 is
  positive, and its \<open>Math.floor\<close> is 0.\<close>

definition parsePositiveInt :: "rat option \<Rightarrow> int \<Rightarrow> int" where
  "parsePositiveInt num fallback =
     (case num of Some x \<Rightarrow> if x > 0 then \<lfloor>x\<rfloor> else fallback | None \<Rightarrow> fallback)"

text \<open>The pattern \<open>/^(0|false|no|off)$/i\<close>.\<close>

definition falsy_re :: re where
  "falsy_re = Or (lit ''0'') (Or (lit ''false'') (Or (lit ''no'') (lit ''off'')))"

definition isTruthyEnv :: "string option \<Rightarrow> bool \<Rightarrow> bool" where
  "isTruthyEnv v fallback =
     (case v of None \<Rightarrow> fallback
      | Some s \<Rightarrow> if s = [] then fallback else \<not> re_full True falsy_re (js_trim s))"

definition isRetryableFailure :: "json option \<Rightarrow> bool" where
  "isRetryableFailure errorMessage =
     (let text = String_or_empty errorMessage
      in list_ex (\<lambda>pattern. re_search True pattern text) RETRYABLE_FAILURE_PATTERNS)"

definition staleProcessingMs :: "env \<Rightarrow> int" where
  "staleProcessingMs c = parsePositiveInt (PROCESSING_STALE_MS c) (20 * 60 * 1000)"

definition retryFailedJobs :: "env \<Rightarrow> bool" where
  "retryFailedJobs c = isTruthyEnv (RETRY_FAILED_JOBS c) True"

definition maxFailedAttempts :: "env \<Rightarrow> int" where
  "maxFailedAttempts c = parsePositiveInt (MAX_FAILED_ATTEMPTS c) 4"

subsection \<open>Job discovery\<close>

text \<open>
  The body of the loop over \<open>queue.jobs\<close> (lines 500 to 527) for one entry: the
  identifier it pushes, if any. Reading the metadata of a failed job can throw, and that
  throw leaves \<open>resolveWorksheetIds\<close>.
\<close>

definition select_job :: "env \<Rightarrow> store \<Rightarrow> json \<Rightarrow> error + string option" where
  "select_job c s job =
     (case field job ''worksheet_id'' of
        Some (JStr w) \<Rightarrow>
          (let worksheetId = js_trim w in
           if worksheetId = [] then Inr None
           else if field job ''state'' = Some (JStr ''queued'') then Inr (Some worksheetId)
           else if field job ''state'' = Some (JStr ''processing'') then
             (let startedMs = js_Date_parse c (String_or_empty (field job ''started_at''));
                  stale = (case startedMs of
                             None \<Rightarrow> True
                           | Some t \<Rightarrow> now_ms c - t \<ge> staleProcessingMs c)
              in Inr (if stale then Some worksheetId else None))
           else if retryFailedJobs c \<and> field job ''state'' = Some (JStr ''failed'') then
             (let attempts = finite_or (field job ''attempts'') 0 in
              if attempts \<ge> maxFailedAttempts c then Inr None
              else case readJson (metadata_file s worksheetId) JNull of
                     Inl e \<Rightarrow> Inl e
                   | Inr metadata \<Rightarrow>
                       Inr (if isRetryableFailure (field metadata ''last_error'')
                            then Some worksheetId else None))
           else Inr None)
      | _ \<Rightarrow> Inr None)"

fun scan_queue :: "env \<Rightarrow> store \<Rightarrow> json list \<Rightarrow> error + string list" where
  "scan_queue c s [] = Inr []"
| "scan_queue c s (job # jobs) =
     (case select_job c s job of
        Inl e \<Rightarrow> Inl e
      | Inr picked \<Rightarrow>
          (case scan_queue c s jobs of
             Inl e \<Rightarrow> Inl e
           | Inr rest \<Rightarrow> Inr ((case picked of None \<Rightarrow> [] | Some w \<Rightarrow> [w]) @ rest)))"

definition is_file :: "node \<Rightarrow> bool" where
  "is_file n = (n \<noteq> Directory)"

text \<open>
  The scan of \<open>metadata/\<close> (lines 530 to 549). A throw inside the loop ends the scan
  and keeps what it had found.
\<close>

fun scan_metadata :: "env \<Rightarrow> store \<Rightarrow> (string \<times> node) list \<Rightarrow> string list" where
  "scan_metadata c s [] = []"
| "scan_metadata c s ((name, n) # entries) =
     (if \<not> is_file n \<or> \<not> ends_with ''.json'' name then scan_metadata c s entries
      else case readJson (map_of (metadata_dir s) name) JNull of
             Inl e \<Rightarrow> []
           | Inr metadata \<Rightarrow>
               (case field metadata ''worksheet_id'' of
                  Some (JStr w) \<Rightarrow>
                    if field metadata ''state'' \<noteq> Some (JStr ''queued'')
                       \<and> \<not> (retryFailedJobs c \<and> field metadata ''state'' = Some (JStr ''failed'')
                             \<and> isRetryableFailure (field metadata ''last_error''))
                    then scan_metadata c s entries
                    else js_trim w # scan_metadata c s entries
                | _ \<Rightarrow> scan_metadata c s entries))"

definition ensureMetadataFromIntake :: "env \<Rightarrow> string \<Rightarrow> string \<Rightarrow> store \<Rightarrow> (error + json) \<times> store" where
  "ensureMetadataFromIntake c wid mtime s =
     (case readJson (metadata_file s wid) JNull of
        Inl e \<Rightarrow> (Inl e, s)
      | Inr existing \<Rightarrow>
          if truthy (Some existing) then (Inr existing, s)
          else
            (let metadata = JObj
                   [(''worksheet_id'', JStr wid), (''title'', JNull), (''owner_email'', JNull),
                    (''original_filename'', JStr ''original.zip''),
                    (''artifact_path'', JStr (artifact_path wid)),
                    (''state'', JStr ''queued''), (''uploaded_at'', JStr mtime),
                    (''integrated_at'', JNull), (''last_error'', JNull)]
             in case write_metadata wid metadata s of
                  (Inl e, s') \<Rightarrow> (Inl e, s')
                | (Inr _, s') \<Rightarrow> (Inr metadata, s')))"

text \<open>The scan of \<open>intake/\<close> (lines 551 to 567), which writes the metadata that is
  missing; a throw ends it as well.\<close>

fun scan_intake :: "env \<Rightarrow> (string \<times> intake_node) list \<Rightarrow> store \<Rightarrow> string list \<times> store" where
  "scan_intake c [] s = ([], s)"
| "scan_intake c ((name, IntakeFile) # entries) s = scan_intake c entries s"
| "scan_intake c ((name, IntakeDir archive) # entries) s =
     (if \<not> isWorksheetId (Some (JStr name)) then scan_intake c entries s
      else case archive of
        None \<Rightarrow> scan_intake c entries s
      | Some mtime \<Rightarrow>
          (case ensureMetadataFromIntake c name mtime s of
             (Inl e, s') \<Rightarrow> ([], s')
           | (Inr metadata, s') \<Rightarrow>
               if \<not> truthy (Some metadata) \<or> field metadata ''state'' \<noteq> Some (JStr ''queued'')
               then scan_intake c entries s'
               else (case scan_intake c entries s' of (found, s'') \<Rightarrow> (name # found, s''))))"

definition resolveWorksheetIds :: "env \<Rightarrow> string option \<Rightarrow> store \<Rightarrow> (error + string list) \<times> store" where
  "resolveWorksheetIds c targetWorksheetId s =
     (case targetWorksheetId of
        Some (t # ts) \<Rightarrow> (Inr [t # ts], s)
      | _ \<Rightarrow>
        (case readJson (queue_file s) empty_queue of
           Inl e \<Rightarrow> (Inl e, s)
         | Inr queue \<Rightarrow>
             if queue = JNull then (Inl type_error, s)
             else case (case field queue ''jobs'' of
                          Some (JArr jobs) \<Rightarrow> scan_queue c s jobs
                        | _ \<Rightarrow> Inr []) of
               Inl e \<Rightarrow> (Inl e, s)
             | Inr queuedFromQueue \<Rightarrow>
                 (let discoveredFromMetadata = scan_metadata c s (metadata_dir s) in
                  case scan_intake c (intake_dir s) s of
                    (discoveredFromIntake, s') \<Rightarrow>
                      (Inr (dedupe (queuedFromQueue @ discoveredFromMetadata @ discoveredFromIntake)),
                       s'))))"

subsection \<open>State changes of a job\<close>

definition updateMetadata :: "string \<Rightarrow> (string \<times> json) list \<Rightarrow> store \<Rightarrow> (error + json) \<times> store" where
  "updateMetadata wid patch s =
     (case readJson (metadata_file s wid) JNull of
        Inl e \<Rightarrow> (Inl e, s)
      | Inr current \<Rightarrow>
          if \<not> truthy (Some current) then (Inl (new_Error (''Missing metadata for '' @ wid)), s)
          else
            (let next = JObj (assign (own_props current) patch)
             in case write_metadata wid next s of
                  (Inl e, s') \<Rightarrow> (Inl e, s')
                | (Inr _, s') \<Rightarrow> (Inr next, s')))"

text \<open>The callback of \<open>queue.jobs.map\<close> in \<open>updateQueueState\<close> (lines 639 to 656), for an
  entry that is not \<open>null\<close>.\<close>

definition update_job :: "string \<Rightarrow> string \<Rightarrow> string \<Rightarrow> json \<Rightarrow> json" where
  "update_job now wid state job =
     (if field job ''worksheet_id'' \<noteq> Some (JStr wid) then job
      else
        (let next0 = AList.update ''state'' (JStr state) (own_props job);
             next1 = (if state = ''processing''
                      then AList.update ''started_at'' (JStr now)
                             (AList.update ''attempts''
                                (JNum (if is_finite (field job ''attempts'')
                                       then finite_or (field job ''attempts'') 0 + 1 else 1)) next0)
                      else if \<not> is_finite (map_of next0 ''attempts'')
                      then AList.update ''attempts'' (JNum 0) next0
                      else next0);
             next2 = (if state \<noteq> ''processing'' \<and> truthy (map_of next1 ''started_at'')
                      then AList.delete ''started_at'' next1 else next1);
             next3 = (if \<not> truthy (map_of next2 ''queued_at'')
                      then AList.update ''queued_at'' (JStr now) next2 else next2)
         in JObj next3))"

text \<open>\<open>queue.jobs.map\<close>: the callback throws at an entry that is \<open>null\<close>.\<close>

fun update_jobs :: "string \<Rightarrow> string \<Rightarrow> string \<Rightarrow> json list \<Rightarrow> error + json list" where
  "update_jobs now wid state [] = Inr []"
| "update_jobs now wid state (job # jobs) =
     (if job = JNull then Inl type_error
      else case update_jobs now wid state jobs of
             Inl e \<Rightarrow> Inl e
           | Inr rest \<Rightarrow> Inr (update_job now wid state job # rest))"

definition pushed_job :: "string \<Rightarrow> string \<Rightarrow> string \<Rightarrow> json" where
  "pushed_job now wid state = JObj
     ([(''worksheet_id'', JStr wid), (''state'', JStr state),
       (''attempts'', JNum (if state = ''processing'' then 1 else 0)),
       (''queued_at'', JStr now)]
      @ (if state = ''processing'' then [(''started_at'', JStr now)] else []))"

text \<open>Lines 634 to 665 of \<open>updateQueueState\<close>, from the document read to the document
  written; the cases of the document are those of \<open>upsert_job\<close>.\<close>

fun queue_with_state :: "string \<Rightarrow> string \<Rightarrow> string \<Rightarrow> json \<Rightarrow> error + json" where
  "queue_with_state now wid state (JObj kv) =
     (let jobs = jobs_of kv in
      case update_jobs now wid state jobs of
        Inl e \<Rightarrow> Inl e
      | Inr mapped \<Rightarrow>
          (let found = list_ex (\<lambda>job. field job ''worksheet_id'' = Some (JStr wid)) jobs;
               jobs' = (if found then mapped else mapped @ [pushed_job now wid state])
           in Inr (JObj (AList.update ''jobs'' (JArr jobs') kv))))"
| "queue_with_state now wid state (JArr xs) = Inr (JArr xs)"
| "queue_with_state now wid state _ = Inl type_error"

definition updateQueueState :: "string \<Rightarrow> string \<Rightarrow> string \<Rightarrow> store \<Rightarrow> (error + unit) \<times> store" where
  "updateQueueState now wid state s =
     (case readJson (queue_file s) empty_queue of
        Inl e \<Rightarrow> (Inl e, s)
      | Inr queue \<Rightarrow>
          (case queue_with_state now wid state queue of
             Inl e \<Rightarrow> (Inl e, s)
           | Inr queue' \<Rightarrow> write_queue queue' s))"

subsection \<open>Processing a worksheet and the batch loop\<close>

text \<open>
  Steps 2 to 9 of the pipeline (scratch directories, unzip, project root, rewrite,
  guardrails, install and build, verification of the output, connectivity check) run
  external commands on \<open>work/\<close> and \<open>shippable/\<close>, outside the store. For the worker
  they either throw an error or they do not: \<open>pipeline wid\<close> is that outcome for a
  worksheet.
\<close>

datatype row = Integrated string | Failed string string

definition processWorksheet ::
    "env \<Rightarrow> (string \<Rightarrow> error option) \<Rightarrow> string \<Rightarrow> store \<Rightarrow> (error + row) \<times> store" where
  "processWorksheet c pipeline wid s =
     (case readJson (metadata_file s wid) JNull of
        Inl e \<Rightarrow> (Inl e, s)
      | Inr metadata \<Rightarrow>
          if \<not> truthy (Some metadata) then (Inl (new_Error (''No metadata found for '' @ wid)), s)
          else
            (case updateMetadata wid [(''state'', JStr ''processing''), (''last_error'', JNull)] s of
               (Inl e, s1) \<Rightarrow> (Inl e, s1)
             | (Inr _, s1) \<Rightarrow>
                 (case updateQueueState (now_iso c) wid ''processing'' s1 of
                    (Inl e, s2) \<Rightarrow> (Inl e, s2)
                  | (Inr _, s2) \<Rightarrow>
                      (case pipeline wid of
                         Some e \<Rightarrow> (Inl e, s2)
                       | None \<Rightarrow>
                           (case updateMetadata wid
                                   [(''state'', JStr ''integrated''),
                                    (''integrated_at'', JStr (now_iso c)),
                                    (''last_error'', JNull)] s2 of
                              (Inl e, s3) \<Rightarrow> (Inl e, s3)
                            | (Inr _, s3) \<Rightarrow>
                                (case updateQueueState (now_iso c) wid ''completed'' s3 of
                                   (Inl e, s4) \<Rightarrow> (Inl e, s4)
                                 | (Inr _, s4) \<Rightarrow> (Inr (Integrated wid), s4)))))))"

definition markFailure :: "env \<Rightarrow> string \<Rightarrow> string \<Rightarrow> store \<Rightarrow> (error + unit) \<times> store" where
  "markFailure c wid errorMessage s =
     (case updateMetadata wid [(''state'', JStr ''failed''), (''last_error'', JStr errorMessage)] s of
        (Inl e, s1) \<Rightarrow> (Inl e, s1)
      | (Inr _, s1) \<Rightarrow> updateQueueState (now_iso c) wid ''failed'' s1)"

text \<open>\<open>String(error.message || error)\<close>.\<close>

definition failure_message :: "error \<Rightarrow> string" where
  "failure_message e = (if err_message e \<noteq> [] then err_message e else error_to_String e)"

text \<open>The loop of \<open>main\<close> over the worksheet identifiers (lines 942 to 955). An error
  that leaves it rejects \<open>main\<close>, and the process exits with code 1.\<close>

fun process_all ::
    "env \<Rightarrow> (string \<Rightarrow> error option) \<Rightarrow> string list \<Rightarrow> store \<Rightarrow> (error + row list) \<times> store" where
  "process_all c pipeline [] s = (Inr [], s)"
| "process_all c pipeline (wid # wids) s =
     (case processWorksheet c pipeline wid s of
        (Inr result, s1) \<Rightarrow>
          (case process_all c pipeline wids s1 of
             (Inl e, s') \<Rightarrow> (Inl e, s')
           | (Inr summary, s') \<Rightarrow> (Inr (result # summary), s'))
      | (Inl error, s1) \<Rightarrow>
          (let message = failure_message error in
           case markFailure c wid message s1 of
             (Inl e, s2) \<Rightarrow> (Inl e, s2)
           | (Inr _, s2) \<Rightarrow>
               (case process_all c pipeline wids s2 of
                  (Inl e, s') \<Rightarrow> (Inl e, s')
                | (Inr summary, s') \<Rightarrow> (Inr (Failed wid message # summary), s'))))"

definition main ::
    "env \<Rightarrow> (string \<Rightarrow> error option) \<Rightarrow> string option \<Rightarrow> store \<Rightarrow> (error + row list) \<times> store" where
  "main c pipeline target s =
     (case resolveWorksheetIds c target s of
        (Inl e, s1) \<Rightarrow> (Inl e, s1)
      | (Inr worksheetIds, s1) \<Rightarrow>
          if worksheetIds = [] then (Inr [], s1) else process_all c pipeline worksheetIds s1)"

section \<open>The process supervisor (\<open>run\<close> in scripts/process_queue.js)\<close>

text \<open>
  \<open>run\<close> spawns a child process and returns a promise that the handlers of the child's
  events and of two timers settle. The model is the state that those handlers share
  (\<open>stdout\<close>, \<open>stderr\<close>, \<open>finished\<close>, the two timers) together with what they do to the
  outside: the signals sent to the child and the settlement of the promise. Time is in
  milliseconds since the spawn. A timer that is armed holds the time at which it is due,
  and \<open>clearTimeout\<close> disarms it. The child's events come as a timeline, each with its
  time; a timer that is due at the time of an event or before fires before the handler
  of that event runs.
\<close>

datatype signal = SIGTERM | SIGKILL

datatype child_event =
    StdoutData string
  | StderrData string
  | ErrorEvent error
  | Close "int option"

text \<open>The arguments of \<open>run\<close> that its handlers read; \<open>options.timeoutMs\<close> is held
  after \<open>Number\<close>, as the variables of the environment are.\<close>

record run_args =
  cmd :: string
  args :: "string list"
  options_timeoutMs :: "rat option"

record proc =
  stdout :: string
  stderr :: string
  finished :: bool
  timeoutId :: "int option"
  hardKillId :: "int option"
  kills :: "(int \<times> signal) list"
  settled :: "(error + string \<times> string) option"

definition timeoutMs :: "run_args \<Rightarrow> int" where
  "timeoutMs a = parsePositiveInt (options_timeoutMs a) 0"

fun join_space :: "string list \<Rightarrow> string" where
  "join_space [] = []"
| "join_space [s] = s"
| "join_space (s # t # ss) = s @ '' '' @ join_space (t # ss)"

text \<open>\<open>`${cmd} ${args.join(" ")}`\<close>.\<close>

definition command_line :: "run_args \<Rightarrow> string" where
  "command_line a = cmd a @ '' '' @ join_space (args a)"

definition newline :: string where
  "newline = [CHR 0x0A]"

text \<open>\<open>`${code}`\<close> for the exit code, which is \<open>null\<close> when a signal ended the child.\<close>

fun code_text :: "int option \<Rightarrow> string" where
  "code_text None = ''null''"
| "code_text (Some n) = show_int n"

text \<open>The delay that \<open>setTimeout\<close> of Node gives a timer: a delay above \<open>2\<^sup>3\<^sup>1 - 1\<close> ms
  or below 1 ms is set to 1 ms.\<close>

definition setTimeout_delay :: "int \<Rightarrow> int" where
  "setTimeout_delay ms = (if ms > 2147483647 \<or> ms < 1 then 1 else ms)"

definition initial :: "run_args \<Rightarrow> proc" where
  "initial a =
     \<lparr>stdout = [], stderr = [], finished = False,
      timeoutId = (if timeoutMs a > 0 then Some (setTimeout_delay (timeoutMs a)) else None),
      hardKillId = None, kills = [], settled = None\<rparr>"

definition finalize :: "(proc \<Rightarrow> proc) \<Rightarrow> proc \<Rightarrow> proc" where
  "finalize fn p =
     (if finished p then p
      else fn (p\<lparr>finished := True, timeoutId := None, hardKillId := None\<rparr>))"

text \<open>The callback of the timeout timer, run at time \<open>d\<close>.\<close>

definition on_timeout :: "run_args \<Rightarrow> int \<Rightarrow> proc \<Rightarrow> proc" where
  "on_timeout a d p =
     (if finished p then p\<lparr>timeoutId := None\<rparr>
      else p\<lparr>stderr := stderr p @ newline @ command_line a @ '' timed out after ''
                          @ show_int (timeoutMs a) @ ''ms'',
             kills := kills p @ [(d, SIGTERM)],
             hardKillId := Some (d + setTimeout_delay 5000),
             timeoutId := None\<rparr>)"

text \<open>The callback of the second timer, run at time \<open>d\<close>.\<close>

definition on_hard_kill :: "int \<Rightarrow> proc \<Rightarrow> proc" where
  "on_hard_kill d p =
     (if \<not> finished p then p\<lparr>kills := kills p @ [(d, SIGKILL)], hardKillId := None\<rparr>
      else p\<lparr>hardKillId := None\<rparr>)"

text \<open>The timers that are due at time \<open>t\<close> fire, the timeout first.\<close>

definition fire_timers :: "run_args \<Rightarrow> int \<Rightarrow> proc \<Rightarrow> proc" where
  "fire_timers a t p =
     (let p1 = (case timeoutId p of
                  Some d \<Rightarrow> if d \<le> t then on_timeout a d p else p
                | None \<Rightarrow> p)
      in case hardKillId p1 of
           Some h \<Rightarrow> if h \<le> t then on_hard_kill h p1 else p1
         | None \<Rightarrow> p1)"

fun handle :: "run_args \<Rightarrow> child_event \<Rightarrow> proc \<Rightarrow> proc" where
  "handle a (StdoutData d) p = p\<lparr>stdout := stdout p @ d\<rparr>"
| "handle a (StderrData d) p = p\<lparr>stderr := stderr p @ d\<rparr>"
| "handle a (ErrorEvent e) p = finalize (\<lambda>q. q\<lparr>settled := Some (Inl e)\<rparr>) p"
| "handle a (Close code) p =
     finalize (\<lambda>q. q\<lparr>settled := Some
        (if code = Some 0 then Inr (stdout q, stderr q)
         else Inl (new_Error (js_trim (command_line a @ '' failed ('' @ code_text code @ '')''
                                        @ newline @ stdout q @ newline @ stderr q))))\<rparr>) p"

fun run_events :: "run_args \<Rightarrow> (int \<times> child_event) list \<Rightarrow> proc \<Rightarrow> proc" where
  "run_events a [] p = p"
| "run_events a ((t, ev) # timeline) p = run_events a timeline (handle a ev (fire_timers a t p))"

text \<open>\<open>run\<close> observed at time \<open>horizon\<close>, after the events of the timeline up to then.\<close>

definition run :: "run_args \<Rightarrow> (int \<times> child_event) list \<Rightarrow> int \<Rightarrow> proc" where
  "run a timeline horizon =
     fire_timers a horizon (run_events a (filter (\<lambda>(t, ev). t \<le> horizon) timeline) (initial a))"

text \<open>The events that settle the promise.\<close>

fun terminal :: "child_event \<Rightarrow> bool" where
  "terminal (ErrorEvent e) = True"
| "terminal (Close code) = True"
| "terminal _ = False"

section \<open>Notions used to state the properties\<close>

text \<open>The entries of the pending list, when the document is an object.\<close>

definition pending_jobs :: "store \<Rightarrow> json list" where
  "pending_jobs s = (case queue_file s of Some (File (Parses (JObj kv))) \<Rightarrow> jobs_of kv | _ \<Rightarrow> [])"

text \<open>The worksheet identifier of an entry, if it has one.\<close>

definition job_id :: "json \<Rightarrow> string list" where
  "job_id job = (case field job ''worksheet_id'' of Some (JStr w) \<Rightarrow> [w] | _ \<Rightarrow> [])"

definition job_ids :: "json list \<Rightarrow> string list" where
  "job_ids jobs = concat (map job_id jobs)"

definition entries_for :: "string \<Rightarrow> json list \<Rightarrow> json list" where
  "entries_for wid jobs = filter (\<lambda>job. field job ''worksheet_id'' = Some (JStr wid)) jobs"

text \<open>At most one entry for each worksheet identifier.\<close>

definition one_entry_per_id :: "json list \<Rightarrow> bool" where
  "one_entry_per_id jobs = distinct (job_ids jobs)"

text \<open>A sequence of calls of \<open>enqueueUploadedWorksheet\<close>, each with its time and its
  upload; a call that throws leaves the store it had reached.\<close>

fun enqueue_all :: "(string \<times> upload) list \<Rightarrow> store \<Rightarrow> store" where
  "enqueue_all [] s = s"
| "enqueue_all ((uploadedAt, u) # calls) s =
     enqueue_all calls (snd (enqueueUploadedWorksheet uploadedAt u s))"

text \<open>The store and the two uploads of the repository's test ``upserts queue entry instead
  of duplicating worksheet rows'': the same identifier is enqueued twice.\<close>

definition demo_store :: store where
  "demo_store = \<lparr>queue_file = None, metadata_dir = [], intake_dir = [],
     temp_files = [(''upload-a.tmp'', ''2026-02-28T09:59:00.000Z''),
                   (''upload-b.tmp'', ''2026-02-28T09:59:30.000Z'')]\<rparr>"

definition demo_upload_a :: upload where
  "demo_upload_a = \<lparr>worksheetId = ''ws_20260228_c0ffee'', title = Some (JStr ''First''),
     ownerEmail = Some (JStr ''a@example.com''), originalFilename = Some (JStr ''worksheet-a.zip''),
     tempFilePath = ''upload-a.tmp''\<rparr>"

definition demo_upload_b :: upload where
  "demo_upload_b = \<lparr>worksheetId = ''ws_20260228_c0ffee'', title = Some (JStr ''Second''),
     ownerEmail = Some (JStr ''b@example.com''), originalFilename = Some (JStr ''worksheet-b.zip''),
     tempFilePath = ''upload-b.tmp''\<rparr>"

definition demo_queued :: store where
  "demo_queued = snd (enqueueUploadedWorksheet ''2026-02-28T10:00:00.000Z'' demo_upload_a
                        (snd (ensureStorageLayout demo_store)))"

text \<open>The pending list can be read and searched without a throw: a sufficient condition.\<close>

definition queue_searchable :: "store \<Rightarrow> bool" where
  "queue_searchable s =
     (case readJson (queue_file s) empty_queue of
        Inl e \<Rightarrow> False
      | Inr queue \<Rightarrow> queue \<noteq> JNull \<and> JNull \<notin> set (case field queue ''jobs'' of
                                                    Some (JArr jobs) \<Rightarrow> jobs | _ \<Rightarrow> []))"

text \<open>A store whose metadata and pending list disagree: the metadata state is white space
  only, or has a trailing space, and the pending list says \<open>failed\<close>.\<close>

definition blank_state_store :: "string \<Rightarrow> store" where
  "blank_state_store st =
     \<lparr>queue_file = Some (File (Parses (JObj [(''jobs'', JArr [JObj
          [(''worksheet_id'', JStr ''ws_20260228_feed01''), (''state'', JStr ''failed''),
           (''attempts'', JNum 1), (''queued_at'', JStr ''2026-02-28T10:00:00.000Z'')]])]))),
      metadata_dir = [(''ws_20260228_feed01.json'', File (Parses (JObj
          [(''worksheet_id'', JStr ''ws_20260228_feed01''), (''state'', JStr st),
           (''uploaded_at'', JStr ''2026-02-28T10:00:00.000Z''), (''integrated_at'', JNull),
           (''last_error'', JNull)])))],
      intake_dir = [], temp_files = []\<rparr>"

text \<open>The worksheet of the test after a worker has claimed it: its entry of the pending
  list is in state \<open>processing\<close> with a start time.\<close>

definition demo_claimed :: store where
  "demo_claimed = snd (updateQueueState ''2026-02-28T10:01:00.000Z'' ''ws_20260228_c0ffee''
                         ''processing'' demo_queued)"

text \<open>A run of the worker at noon on the day of the test with no variable set, and a
  \<open>Date.parse\<close> that knows the three times used below: one hour, twenty minutes and
  ten minutes before.\<close>

definition demo_env :: env where
  "demo_env = \<lparr>PROCESSING_STALE_MS = None, RETRY_FAILED_JOBS = None, MAX_FAILED_ATTEMPTS = None,
     now_ms = 1772280000000, now_iso = ''2026-02-28T12:00:00.000Z'',
     Date_parse = (\<lambda>text. if text = ''2026-02-28T11:00:00.000Z'' then Some 1772276400000
                           else if text = ''2026-02-28T11:40:00.000Z'' then Some 1772278800000
                           else if text = ''2026-02-28T11:50:00.000Z'' then Some 1772279400000
                           else None)\<rparr>"




text \<open>The start time of a processing job as the discovery reads it, and its staleness.\<close>

definition started_ms :: "env \<Rightarrow> json \<Rightarrow> int option" where
  "started_ms c job = js_Date_parse c (String_or_empty (field job ''started_at''))"

definition is_stale :: "env \<Rightarrow> json \<Rightarrow> bool" where
  "is_stale c job =
     (case started_ms c job of None \<Rightarrow> True | Some t \<Rightarrow> now_ms c - t \<ge> staleProcessingMs c)"

text \<open>A store with one worksheet whose pending-list entry and metadata are given.\<close>

definition one_job_store :: "(string \<times> json) list \<Rightarrow> (string \<times> json) list \<Rightarrow> store" where
  "one_job_store job metadata =
     \<lparr>queue_file = Some (File (Parses (JObj [(''jobs'', JArr [JObj job])]))),
      metadata_dir = [(''ws_20260228_c0ffee.json'', File (Parses (JObj metadata)))],
      intake_dir = [(''ws_20260228_c0ffee'', IntakeDir (Some ''2026-02-28T09:59:00.000Z''))],
      temp_files = []\<rparr>"

text \<open>A job that has failed four times, the last time with a timeout of the network.\<close>

definition capped_job :: "(string \<times> json) list" where
  "capped_job =
     [(''worksheet_id'', JStr ''ws_20260228_c0ffee''), (''state'', JStr ''failed''),
      (''attempts'', JNum 4), (''queued_at'', JStr ''2026-02-28T10:00:00.000Z'')]"

definition capped_metadata :: "(string \<times> json) list" where
  "capped_metadata =
     [(''worksheet_id'', JStr ''ws_20260228_c0ffee''), (''title'', JStr ''First''),
      (''owner_email'', JStr ''a@example.com''), (''original_filename'', JStr ''worksheet-a.zip''),
      (''artifact_path'', JStr ''storage/intake/ws_20260228_c0ffee/original.zip''),
      (''state'', JStr ''failed''), (''uploaded_at'', JStr ''2026-02-28T10:00:00.000Z''),
      (''integrated_at'', JNull),
      (''last_error'', JStr ''npm install failed (1): connect ETIMEDOUT 104.16.0.35:443'')]"

text \<open>A job in state \<open>processing\<close> that was started at the given time.\<close>

definition processing_job :: "string \<Rightarrow> (string \<times> json) list" where
  "processing_job started =
     [(''worksheet_id'', JStr ''ws_20260228_c0ffee''), (''state'', JStr ''processing''),
      (''attempts'', JNum 1), (''queued_at'', JStr ''2026-02-28T10:00:00.000Z''),
      (''started_at'', JStr started)]"

definition processing_metadata :: "(string \<times> json) list" where
  "processing_metadata =
     [(''worksheet_id'', JStr ''ws_20260228_c0ffee''), (''title'', JStr ''First''),
      (''owner_email'', JStr ''a@example.com''), (''original_filename'', JStr ''worksheet-a.zip''),
      (''artifact_path'', JStr ''storage/intake/ws_20260228_c0ffee/original.zip''),
      (''state'', JStr ''processing''), (''uploaded_at'', JStr ''2026-02-28T10:00:00.000Z''),
      (''integrated_at'', JNull), (''last_error'', JNull)]"

text \<open>A document (an entry of the pending list, or a metadata record) names an
  identifier: its \<open>worksheet_id\<close> is a string that is the identifier after \<open>trim\<close>.\<close>

definition names_id :: "json \<Rightarrow> string \<Rightarrow> bool" where
  "names_id doc wid = (case field doc ''worksheet_id'' of Some (JStr w) \<Rightarrow> js_trim w = wid | _ \<Rightarrow> False)"

text \<open>A metadata record that is neither queued nor failed, as one in state
  \<open>processing\<close>, where the claim step leaves it.\<close>

definition on_hold :: "json \<Rightarrow> bool" where
  "on_hold m = (field m ''state'' \<noteq> Some (JStr ''queued'') \<and> field m ''state'' \<noteq> Some (JStr ''failed''))"

text \<open>The metadata of an identifier is on hold: its metadata file holds a record on hold,
  and so is every record of the metadata directory that can be read and names the
  identifier.\<close>

definition metadata_on_hold :: "store \<Rightarrow> string \<Rightarrow> bool" where
  "metadata_on_hold s wid =
     ((case readJson (metadata_file s wid) JNull of
         Inl e \<Rightarrow> False
       | Inr m \<Rightarrow> truthy (Some m) \<and> on_hold m)
      \<and> list_all (\<lambda>(name, n). case readJson (map_of (metadata_dir s) name) JNull of
                                 Inl e \<Rightarrow> True
                               | Inr m \<Rightarrow> names_id m wid \<longrightarrow> on_hold m) (metadata_dir s))"

text \<open>A timeline without an event that settles the promise.\<close>

definition quiet :: "(int \<times> child_event) list \<Rightarrow> bool" where
  "quiet timeline = list_all (\<lambda>(t, ev). \<not> terminal ev) timeline"

text \<open>The events that have happened at the time of observation.\<close>

definition visible :: "(int \<times> child_event) list \<Rightarrow> int \<Rightarrow> (int \<times> child_event) list" where
  "visible timeline horizon = filter (\<lambda>(t, ev). t \<le> horizon) timeline"

text \<open>The time at which the timeout timer is due, when there is one.\<close>

definition timer_due :: "run_args \<Rightarrow> int" where
  "timer_due a = setTimeout_delay (timeoutMs a)"

text \<open>The signals that the two timers have sent by time \<open>T\<close> to a child whose promise is
  not settled: \<open>SIGTERM\<close> when the timeout timer is due and \<open>SIGKILL\<close> 5000 ms later.\<close>

definition signals_by :: "run_args \<Rightarrow> int \<Rightarrow> (int \<times> signal) list" where
  "signals_by a T =
     (if timeoutMs a > 0 \<and> timer_due a \<le> T
      then (timer_due a, SIGTERM) #
             (if timer_due a + 5000 \<le> T then [(timer_due a + 5000, SIGKILL)] else [])
      else [])"

text \<open>The message of the error for an exit code other than 0.\<close>

definition failure_text :: "run_args \<Rightarrow> int option \<Rightarrow> string \<Rightarrow> string \<Rightarrow> string" where
  "failure_text a code out err =
     js_trim (command_line a @ '' failed ('' @ code_text code @ '')'' @ newline @ out @ newline @ err)"

text \<open>The part of the state that the timers read and write.\<close>

definition timers_of :: "proc \<Rightarrow> bool \<times> int option \<times> int option \<times> (int \<times> signal) list" where
  "timers_of p = (finished p, timeoutId p, hardKillId p, kills p)"

text \<open>The state in which the handler of the event at time \<open>t\<close> finds the closure, after
  the events \<open>pre\<close> before it.\<close>

definition state_before :: "run_args \<Rightarrow> (int \<times> child_event) list \<Rightarrow> int \<Rightarrow> proc" where
  "state_before a pre t = fire_timers a t (run_events a pre (initial a))"

text \<open>The data that the child has written to its standard output in a timeline.\<close>

definition stdout_chunks :: "(int \<times> child_event) list \<Rightarrow> string" where
  "stdout_chunks evs = concat (map (\<lambda>(t, ev). case ev of StdoutData d \<Rightarrow> d | _ \<Rightarrow> []) evs)"

text \<open>The data that the child has written to its standard error in a timeline.\<close>

definition stderr_chunks :: "(int \<times> child_event) list \<Rightarrow> string" where
  "stderr_chunks evs = concat (map (\<lambda>(t, ev). case ev of StderrData d \<Rightarrow> d | _ \<Rightarrow> []) evs)"

text \<open>The line that the timeout timer adds to the captured standard error.\<close>

definition timeout_note :: "run_args \<Rightarrow> string" where
  "timeout_note a =
     newline @ command_line a @ '' timed out after '' @ show_int (timeoutMs a) @ ''ms''"

text \<open>The captured standard error at time \<open>T\<close> after the events \<open>pre\<close>, while the promise
  is not settled: what the child has written, with the line of the timeout between the
  data that came before the timer was due and the data that came from then on.\<close>

definition stderr_by :: "run_args \<Rightarrow> (int \<times> child_event) list \<Rightarrow> int \<Rightarrow> string" where
  "stderr_by a pre T =
     (if timeoutMs a > 0 \<and> timer_due a \<le> T
      then stderr_chunks (filter (\<lambda>(u, ev). u < timer_due a) pre) @ timeout_note a
             @ stderr_chunks (filter (\<lambda>(u, ev). timer_due a \<le> u) pre)
      else stderr_chunks pre)"

text \<open>\<open>unzip\<close> with the timeout of one minute, and four courses of events: the archive
  is extracted; the archive is broken; the child hangs, ignores \<open>SIGTERM\<close> and is
  killed; the child hangs and \<open>child.kill("SIGTERM")\<close> fails with \<open>EPERM\<close>, which Node
  reports as an \<open>error\<close> event, and the child ends 20 seconds later with code 1.\<close>

definition demo_unzip :: run_args where
  "demo_unzip = \<lparr>cmd = ''unzip'', args = [''-q'', ''original.zip'', ''-d'', ''work''],
                 options_timeoutMs = Some 60000\<rparr>"

definition demo_extracted :: "(int \<times> child_event) list" where
  "demo_extracted = [(40, StdoutData ''inflating''), (90, Close (Some 0))]"

definition demo_broken :: "(int \<times> child_event) list" where
  "demo_broken = [(12, StderrData ''caution: ''), (15, StderrData ''cannot find zipfile directory''),
                  (20, Close (Some 9))]"

definition demo_hanging :: "(int \<times> child_event) list" where
  "demo_hanging = [(40, StdoutData ''inflating''), (59000, StderrData ''slow''),
                   (61000, StderrData ''Terminated''), (65010, Close None)]"

definition demo_kill_refused :: "(int \<times> child_event) list" where
  "demo_kill_refused = [(40, StdoutData ''inflating''),
                        (60000, ErrorEvent (Err ''Error'' (Some ''EPERM'') ''kill EPERM'')),
                        (80000, Close (Some 1))]"

text \<open>A timeout of 3000000000 ms, which is more than a timer of Node takes.\<close>

definition demo_long :: run_args where
  "demo_long = \<lparr>cmd = ''npm'', args = [''install''], options_timeoutMs = Some 3000000000\<rparr>"

text \<open>The worksheet of the test in a store whose \<open>pending.json\<close> holds the array \<open>[]\<close>
  and not an object.\<close>

definition array_queue_store :: store where
  "array_queue_store =
     \<lparr>queue_file = Some (File (Parses (JArr []))),
      metadata_dir = [(''ws_20260228_c0ffee.json'', File (Parses (JObj
          [(''worksheet_id'', JStr ''ws_20260228_c0ffee''), (''title'', JStr ''First''),
           (''owner_email'', JStr ''a@example.com''), (''original_filename'', JStr ''worksheet-a.zip''),
           (''artifact_path'', JStr ''storage/intake/ws_20260228_c0ffee/original.zip''),
           (''state'', JStr ''queued''), (''uploaded_at'', JStr ''2026-02-28T10:00:00.000Z''),
           (''integrated_at'', JNull), (''last_error'', JNull)])))],
      intake_dir = [(''ws_20260228_c0ffee'', IntakeDir (Some ''2026-02-28T09:59:00.000Z''))],
      temp_files = []\<rparr>"

section \<open>Properties of the regular expression matcher\<close>

lemma re_full_Never [simp]: "re_full ic Never w = False"
  by (induction w) auto

lemma re_full_Empty [simp]: "re_full ic Empty w = (w = [])"
  by (cases w) auto

lemma re_full_Cls [simp]: "re_full ic (Cls cs) w = (\<exists>c. w = [c] \<and> cls_has ic cs c)"
  by (cases w) auto

lemma re_full_Or [simp]: "re_full ic (Or r s) w = (re_full ic r w \<or> re_full ic s w)"
  by (induction w arbitrary: r s) auto

lemma re_full_Cat: "re_full ic (Cat r s) w = (\<exists>u v. w = u @ v \<and> re_full ic r u \<and> re_full ic s v)"
proof (induction w arbitrary: r)
  case Nil
  then show ?case by auto
next
  case (Cons c w)
  have split: "(\<exists>u v. c # w = u @ v \<and> re_full ic r u \<and> re_full ic s v) =
        ((nullable r \<and> re_full ic s (c # w)) \<or> (\<exists>u v. w = u @ v \<and> re_full ic (deriv ic c r) u \<and> re_full ic s v))"
    (is "?L = ?R")
  proof
    assume ?L
    then obtain u v where uv: "c # w = u @ v" "re_full ic r u" "re_full ic s v" by blast
    show ?R
    proof (cases u)
      case Nil
      with uv show ?thesis by auto
    next
      case (Cons a u')
      with uv show ?thesis by auto
    qed
  next
    assume ?R
    then show ?L
    proof
      assume "nullable r \<and> re_full ic s (c # w)"
      then have "c # w = [] @ (c # w) \<and> re_full ic r [] \<and> re_full ic s (c # w)" by simp
      then show ?L by blast
    next
      assume "\<exists>u v. w = u @ v \<and> re_full ic (deriv ic c r) u \<and> re_full ic s v"
      then obtain u v where "w = u @ v" "re_full ic (deriv ic c r) u" "re_full ic s v" by blast
      then have "c # w = (c # u) @ v \<and> re_full ic r (c # u) \<and> re_full ic s v" by simp
      then show ?L by blast
    qed
  qed
  show ?case unfolding split using Cons.IH by auto
qed

lemma re_full_rep_Cls:
  "re_full ic (rep n (Cls cs)) w = (length w = n \<and> list_all (cls_has ic cs) w)"
proof (induction n arbitrary: w)
  case 0
  then show ?case by auto
next
  case (Suc n)
  show ?case
    by (cases w) (auto simp: re_full_Cat Suc.IH)
qed

lemma re_full_lit:
  "re_full ic (lit p) w = (length w = length p \<and> list_all2 (\<lambda>a c. cls_has ic [a] c) p w)"
proof (induction p arbitrary: w)
  case Nil
  then show ?case by auto
next
  case (Cons a p)
  show ?case
    by (cases w) (auto simp: re_full_Cat Cons.IH)
qed

section \<open>Properties of worksheet identifiers\<close>

lemma digits10_nth: "k < 10 \<Longrightarrow> digits10 ! k \<in> set digits10"
  by (rule nth_mem) (simp add: digits10_def)

lemma show_nat_digits: "list_all (\<lambda>c. c \<in> set digits10) (show_nat n)"
proof (induction n rule: show_nat.induct)
  case (1 n)
  show ?case
  proof (cases "n < 10")
    case True
    then show ?thesis by (simp add: show_nat.simps [of n] digits10_nth)
  next
    case False
    then show ?thesis using 1 by (simp add: show_nat.simps [of n] digits10_nth)
  qed
qed

lemma show_nat_length1: "n < 10 \<Longrightarrow> length (show_nat n) = 1"
  by (simp add: show_nat.simps [of n])

lemma show_nat_length2: "10 \<le> n \<Longrightarrow> n < 100 \<Longrightarrow> length (show_nat n) = 2"
  by (simp add: show_nat.simps [of n] show_nat_length1)

lemma show_nat_length3: "100 \<le> n \<Longrightarrow> n < 1000 \<Longrightarrow> length (show_nat n) = 3"
  by (simp add: show_nat.simps [of n] show_nat_length2)

lemma show_nat_length4: "1000 \<le> n \<Longrightarrow> n < 10000 \<Longrightarrow> length (show_nat n) = 4"
  by (simp add: show_nat.simps [of n] show_nat_length3)

lemma padStart2_length: "0 < length s \<Longrightarrow> length s \<le> 2 \<Longrightarrow> length (padStart2 s) = 2"
  by (simp add: padStart2_def)

lemma padStart2_digits:
  "list_all (\<lambda>c. c \<in> set digits10) s \<Longrightarrow> list_all (\<lambda>c. c \<in> set digits10) (padStart2 s)"
proof -
  have z: "CHR ''0'' \<in> set digits10" by (simp add: digits10_def)
  assume "list_all (\<lambda>c. c \<in> set digits10) s"
  then show ?thesis using z by (auto simp: padStart2_def list_all_iff)
qed

lemma show_nat_length_le2: "n < 100 \<Longrightarrow> 0 < length (show_nat n) \<and> length (show_nat n) \<le> 2"
  by (cases "n < 10") (simp_all add: show_nat_length1 show_nat_length2)

lemma formatUtcDate_shape:
  assumes "1000 \<le> y" "y \<le> 9999" "m < 12" "d \<le> 31"
  shows "length (formatUtcDate (UtcDate y m d)) = 8
         \<and> list_all (\<lambda>c. c \<in> set digits10) (formatUtcDate (UtcDate y m d))"
proof -
  have y4: "length (show_int y) = 4" using assms by (simp add: show_int_def show_nat_length4)
  have m2: "length (padStart2 (show_nat (m + 1))) = 2"
    using assms show_nat_length_le2 [of "m + 1"] by (simp add: padStart2_length)
  have d2: "length (padStart2 (show_nat d)) = 2"
    using assms show_nat_length_le2 [of d] by (simp add: padStart2_length)
  have yd: "list_all (\<lambda>c. c \<in> set digits10) (show_int y)"
    using assms by (simp add: show_int_def show_nat_digits)
  show ?thesis using y4 m2 d2 yd by (simp add: padStart2_digits show_nat_digits)
qed

lemma hex_lower_nth: "k < 16 \<Longrightarrow> hex_lower ! k \<in> set hex_lower"
  by (rule nth_mem) (simp add: hex_lower_def)

lemma hex_byte_shape: "length (hex_byte b) = 2 \<and> list_all (\<lambda>c. c \<in> set hex_lower) (hex_byte b)"
proof -
  have "unat b < 256" using unsigned_less [of b] by simp
  then have "unat b div 16 < 16" by simp
  then show ?thesis by (simp add: hex_byte_def hex_lower_nth)
qed

lemma to_hex_length: "length (to_hex bs) = 2 * length bs"
  by (induction bs) (simp_all add: to_hex_def hex_byte_shape)

lemma to_hex_hex: "list_all (\<lambda>c. c \<in> set hex_lower) (to_hex bs)"
  by (induction bs) (simp_all add: to_hex_def hex_byte_shape)

lemma list_all_take: "list_all P xs \<Longrightarrow> list_all P (take n xs)"
  by (auto simp: list_all_iff dest: in_set_takeD)

lemma spec_id_shape_app:
  assumes "length dp = 8" "length rp = 6"
    "list_all (\<lambda>c. c \<in> set digits10) dp" "list_all (\<lambda>c. c \<in> set hex_lower) rp"
  shows "spec_id_shape (''ws_'' @ dp @ ''_'' @ rp)"
  using assms unfolding spec_id_shape_def by simp

lemma generateWorksheetId_shape:
  assumes "1000 \<le> y" "y \<le> 9999" "m < 12" "d \<le> 31" "length rnd = 4"
  shows "spec_id_shape (generateWorksheetId (UtcDate y m d) rnd)"
proof -
  let ?dp = "formatUtcDate (UtcDate y m d)"
  let ?rp = "take 6 (to_hex rnd)"
  have dp: "length ?dp = 8" "list_all (\<lambda>c. c \<in> set digits10) ?dp"
    using formatUtcDate_shape [OF assms(1-4)] by simp_all
  have rp: "length ?rp = 6" "list_all (\<lambda>c. c \<in> set hex_lower) ?rp"
    using assms(5) by (simp_all add: to_hex_length to_hex_hex list_all_take)
  have "generateWorksheetId (UtcDate y m d) rnd = ''ws_'' @ ?dp @ ''_'' @ ?rp"
    by (simp add: generateWorksheetId_def Let_def)
  then show ?thesis using spec_id_shape_app [OF dp(1) rp(1) dp(2) rp(2)] by simp
qed

lemma canon_fix_digit: "canon c \<in> set (map canon digits10) = (c \<in> set digits10)"
  by (simp add: canon_def digits10_def)

lemma canon_underscore: "(canon c = CHR ''_'') = (c = CHR ''_'')"
  by (simp add: canon_def)

lemma canon_hex_set: "set (map canon ''abcdef0123456789'') = set ''0123456789ABCDEF''"
  by (auto simp: canon_def)

lemma re_full_lit_icase: "re_full True (lit p) w = (map canon w = map canon p)"
proof (induction p arbitrary: w)
  case Nil
  then show ?case by simp
next
  case (Cons a p)
  show ?case
    by (cases w) (auto simp: re_full_Cat Cons.IH cls_has_def)
qed

lemma split18:
  assumes "length s = 18"
  shows "s = take 3 s @ take 8 (drop 3 s) @ take 1 (drop 11 s) @ drop 12 s"
proof -
  have a: "drop 11 s = take 1 (drop 11 s) @ drop 12 s"
    using append_take_drop_id [of 1 "drop 11 s"] by simp
  have b: "drop 3 s = take 8 (drop 3 s) @ drop 11 s"
    using append_take_drop_id [of 8 "drop 3 s"] by simp
  have c: "s = take 3 s @ drop 3 s" by simp
  show ?thesis using a b c by metis
qed

lemma ws_canon: "map canon ''ws_'' = ''WS_''"
  by (simp add: canon_def)

lemma re_full_worksheet_id: "re_full True worksheet_id_re s = id_shape_icase s"
proof
  assume "re_full True worksheet_id_re s"
  then obtain a b c d where s: "s = a @ b @ c @ d"
    and a: "re_full True (lit ''ws_'') a"
    and b: "re_full True (rep 8 (Cls digits10)) b"
    and c: "re_full True (lit ''_'') c"
    and d: "re_full True (rep 6 (Cls ''abcdef0123456789'')) d"
    unfolding worksheet_id_re_def re_full_Cat by blast
  from a have a1: "map canon a = ''WS_''"
    unfolding re_full_lit_icase ws_canon .
  then have a2: "length a = 3" using length_map [of canon a] by simp
  from b have b': "length b = 8" "list_all (\<lambda>c. c \<in> set digits10) b"
    unfolding re_full_rep_Cls cls_has_def canon_fix_digit by simp_all
  from c have "map canon c = map canon ''_''" unfolding re_full_lit_icase .
  then have c': "c = ''_''" using canon_underscore by (cases c) (auto simp: canon_def)
  from d have d': "length d = 6" "list_all (\<lambda>c. canon c \<in> set ''0123456789ABCDEF'') d"
    unfolding re_full_rep_Cls cls_has_def canon_hex_set by simp_all
  show "id_shape_icase s"
    unfolding id_shape_icase_def s using a1 a2 b' c' d' by simp
next
  assume h: "id_shape_icase s"
  then have len: "length s = 18" by (simp add: id_shape_icase_def)
  let ?a = "take 3 s" and ?b = "take 8 (drop 3 s)" and ?c = "take 1 (drop 11 s)" and ?d = "drop 12 s"
  have a: "re_full True (lit ''ws_'') ?a"
    unfolding re_full_lit_icase ws_canon using h by (simp add: id_shape_icase_def)
  have b: "re_full True (rep 8 (Cls digits10)) ?b"
    unfolding re_full_rep_Cls cls_has_def canon_fix_digit
    using h len by (simp add: id_shape_icase_def)
  have c: "re_full True (lit ''_'') ?c"
    unfolding re_full_lit_icase using h by (simp add: id_shape_icase_def)
  have d: "re_full True (rep 6 (Cls ''abcdef0123456789'')) ?d"
    unfolding re_full_rep_Cls cls_has_def canon_hex_set
    using h len by (simp add: id_shape_icase_def)
  have "s = ?a @ ?b @ ?c @ ?d" using split18 [OF len] .
  then show "re_full True worksheet_id_re s"
    unfolding worksheet_id_re_def re_full_Cat using a b c d by blast
qed

lemma canon_hex_lower_all: "\<forall>c\<in>set hex_lower. canon c \<in> set ''0123456789ABCDEF''"
  by (simp add: hex_lower_def canon_def)

lemma canon_hex_lower: "c \<in> set hex_lower \<Longrightarrow> canon c \<in> set ''0123456789ABCDEF''"
  using canon_hex_lower_all by blast

lemma spec_shape_icase:
  assumes "spec_id_shape s"
  shows "id_shape_icase s"
proof -
  from assms have "take 3 s = ''ws_''" by (simp add: spec_id_shape_def)
  then have a: "map canon (take 3 s) = ''WS_''" using ws_canon by simp
  from assms have "list_all (\<lambda>c. c \<in> set hex_lower) (drop 12 s)" by (simp add: spec_id_shape_def)
  then have d: "list_all (\<lambda>c. canon c \<in> set ''0123456789ABCDEF'') (drop 12 s)"
    unfolding list_all_iff using canon_hex_lower by blast
  from assms a d show ?thesis
    unfolding spec_id_shape_def id_shape_icase_def by blast
qed

text \<open>
  Claim C7, as the code has it. For a date whose UTC year has four digits,
  \<open>generateWorksheetId\<close> returns \<open>ws_\<close>, eight decimal digits, an underscore and six
  lower-case hexadecimal digits. \<open>isWorksheetId\<close> accepts a value exactly when it is a
  string of that form with its letters in either case, so it accepts every string of
  the form that the specification gives.
\<close>

theorem worksheet_id_scheme:
  "(1000 \<le> y \<and> y \<le> 9999 \<and> m < 12 \<and> 1 \<le> d \<and> d \<le> 31 \<and> length rnd = 4
      \<longrightarrow> spec_id_shape (generateWorksheetId (UtcDate y m d) rnd))
   \<and> (isWorksheetId v \<longleftrightarrow> (\<exists>s. v = Some (JStr s) \<and> id_shape_icase s))
   \<and> (spec_id_shape s \<longrightarrow> isWorksheetId (Some (JStr s)))"
proof (intro conjI impI)
  assume "1000 \<le> y \<and> y \<le> 9999 \<and> m < 12 \<and> 1 \<le> d \<and> d \<le> 31 \<and> length rnd = 4"
  then show "spec_id_shape (generateWorksheetId (UtcDate y m d) rnd)"
    using generateWorksheetId_shape [of y m d rnd] by simp
next
  show "isWorksheetId v \<longleftrightarrow> (\<exists>s. v = Some (JStr s) \<and> id_shape_icase s)"
  proof (cases v)
    case None
    then show ?thesis by simp
  next
    case (Some j)
    then show ?thesis by (cases j) (simp_all add: re_full_worksheet_id)
  qed
next
  assume "spec_id_shape s"
  then show "isWorksheetId (Some (JStr s))"
    by (simp add: re_full_worksheet_id spec_shape_icase)
qed

lemma gen_example:
  "generateWorksheetId (UtcDate 2026 1 28) [0xab, 0x12, 0xcd, 0xef] = ''ws_20260228_ab12cd''"
  by code_simp

text \<open>The theorem at the date of the repository's own test.\<close>

theorem worksheet_id_scheme_witness:
  "spec_id_shape (generateWorksheetId (UtcDate 2026 1 28) [0xab, 0x12, 0xcd, 0xef])
   \<and> generateWorksheetId (UtcDate 2026 1 28) [0xab, 0x12, 0xcd, 0xef] = ''ws_20260228_ab12cd''
   \<and> isWorksheetId (Some (JStr ''ws_20260228_ab12cd''))
   \<and> id_shape_icase ''ws_20260228_ab12cd''"
proof -
  let ?rnd = "[0xab, 0x12, 0xcd, 0xef] :: 8 word list"
  let ?id = "''ws_20260228_ab12cd''"
  note t = worksheet_id_scheme [of 2026 1 28 ?rnd "Some (JStr ?id)" ?id]
  have h: "(1000::int) \<le> 2026 \<and> (2026::int) \<le> 9999 \<and> (1::nat) < 12 \<and> (1::nat) \<le> 28
      \<and> (28::nat) \<le> 31 \<and> length ?rnd = 4" by simp
  from t h have g: "spec_id_shape (generateWorksheetId (UtcDate 2026 1 28) ?rnd)" by blast
  then have "spec_id_shape ?id" unfolding gen_example .
  with t have a: "isWorksheetId (Some (JStr ?id))" by blast
  with t have "id_shape_icase ?id" by blast
  with g a gen_example show ?thesis by blast
qed

lemma upper_id_accepted: "isWorksheetId (Some (JStr ''WS_20260228_ABCDEF''))"
  by code_simp

lemma upper_id_not_spec: "\<not> spec_id_shape ''WS_20260228_ABCDEF''"
  by code_simp

lemma gen_year_999:
  "generateWorksheetId (UtcDate 999 0 1) [0xab, 0x12, 0xcd, 0xef] = ''ws_9990101_ab12cd''"
  by code_simp

lemma short_id_not_spec: "\<not> spec_id_shape ''ws_9990101_ab12cd''"
  by code_simp

text \<open>
  Claim C7 as it is stated fails twice: \<open>isWorksheetId\<close> accepts an identifier written in
  upper case, and the identifier generated for a date in the year 999 has seven digits.
\<close>

theorem worksheet_id_scheme_counterexample:
  "isWorksheetId (Some (JStr ''WS_20260228_ABCDEF'')) \<and> \<not> spec_id_shape ''WS_20260228_ABCDEF''
   \<and> generateWorksheetId (UtcDate 999 0 1) [0xab, 0x12, 0xcd, 0xef] = ''ws_9990101_ab12cd''
   \<and> \<not> spec_id_shape ''ws_9990101_ab12cd''"
  using upper_id_accepted upper_id_not_spec gen_year_999 short_id_not_spec by blast

section \<open>Properties of the atomic store and of the job repository\<close>

lemma map_of_assign: "map_of (assign a b) = map_of a ++ map_of (rev b)"
proof -
  have "map_of (fold (\<lambda>(k, v). AList.update k v) b a) = map_of a ++ map_of (rev b)" for a
  proof (induction b arbitrary: a)
    case Nil
    then show ?case by simp
  next
    case (Cons p b)
    obtain k v where p: "p = (k, v)" by (cases p)
    have "map_of (fold (\<lambda>(k, v). AList.update k v) (p # b) a) = map_of (AList.update k v a) ++ map_of (rev b)"
      using Cons.IH [of "AList.update k v a"] by (simp add: p)
    also have "\<dots> = (map_of a ++ map_of [p]) ++ map_of (rev b)"
      by (simp add: p update_conv')
    also have "\<dots> = map_of a ++ map_of (rev (p # b))"
      by simp
    finally show ?case .
  qed
  then show ?thesis by (simp add: assign_def)
qed

lemma jobs_of_update [simp]: "jobs_of (AList.update ''jobs'' (JArr js) kv) = js"
  by (simp add: jobs_of_def update_conv')

text \<open>
  Claim C9. \<open>readJson\<close> returns the fallback when the file does not exist. For a file
  that exists it returns the parsed content, and a read that fails (a file that cannot be
  read, a directory) or a text that is not JSON throws. So the fallback value comes back
  only for a missing file, or for a file that holds that very value.
\<close>

theorem readJson_cases:
  "readJson None fallback = Inr fallback
   \<and> readJson (Some (File (Parses v))) fallback = Inr v
   \<and> readJson (Some (File Garbled)) fallback = Inl syntax_error
   \<and> readJson (Some Locked) fallback = Inl (system_error ''EACCES'')
   \<and> readJson (Some Directory) fallback = Inl (system_error ''EISDIR'')
   \<and> (readJson file fallback = Inr fallback \<longrightarrow> file = None \<or> file = Some (File (Parses fallback)))"
proof -
  have last: "readJson file fallback = Inr fallback \<longrightarrow> file = None \<or> file = Some (File (Parses fallback))"
  proof (cases "file")
    case None
    then show ?thesis by simp
  next
    case (Some n)
    show ?thesis
    proof (cases n)
      case (File c)
      then show ?thesis using Some
        by (cases c) (simp_all add: readJson_def syntax_error_def)
    next
      case Locked
      then show ?thesis using Some by (simp add: readJson_def system_error_def)
    next
      case Directory
      then show ?thesis using Some by (simp add: readJson_def system_error_def)
    qed
  qed
  show ?thesis using last
    by (simp add: readJson_def system_error_def syntax_error_def)
qed

text \<open>The last part at a missing file with the fallback \<open>null\<close>.\<close>

theorem readJson_cases_witness:
  "readJson None JNull = Inr JNull \<and> ((None :: node option) = None \<or> None = Some (File (Parses JNull)))"
  using readJson_cases [of JNull JNull None] by simp

lemma job_id_match: "(field job ''worksheet_id'' = Some (JStr wid)) = (job_id job = [wid])"
  by (auto simp: job_id_def split: option.splits json.splits)

lemma findIndex_Some:
  "findIndex wid jobs = Inr (Some i) \<Longrightarrow> i < length jobs \<and> job_id (jobs ! i) = [wid]"
proof (induction jobs arbitrary: i)
  case Nil
  then show ?case by simp
next
  case (Cons job jobs)
  show ?case
  proof (cases "job = JNull")
    case True
    with Cons.prems show ?thesis by simp
  next
    case False
    show ?thesis
    proof (cases "field job ''worksheet_id'' = Some (JStr wid)")
      case True
      with False Cons.prems show ?thesis by (simp add: job_id_match)
    next
      case no: False
      with False Cons.prems obtain k where k: "findIndex wid jobs = Inr (Some k)" "i = Suc k"
        by (auto split: sum.splits option.splits)
      with Cons.IH [of k] show ?thesis by simp
    qed
  qed
qed

lemma findIndex_None: "findIndex wid jobs = Inr None \<Longrightarrow> wid \<notin> set (job_ids jobs)"
proof (induction jobs)
  case Nil
  then show ?case by (simp add: job_ids_def)
next
  case (Cons job jobs)
  from Cons.prems have a: "job \<noteq> JNull" "field job ''worksheet_id'' \<noteq> Some (JStr wid)"
    "findIndex wid jobs = Inr None"
    by (auto split: if_splits sum.splits option.splits)
  from a(2) have "wid \<notin> set (job_id job)"
    by (auto simp: job_id_def split: option.splits json.splits)
  with Cons.IH a(3) show ?case by (simp add: job_ids_def)
qed

lemma job_ids_update:
  "i < length jobs \<Longrightarrow> job_id y = job_id (jobs ! i) \<Longrightarrow> job_ids (jobs[i := y]) = job_ids jobs"
proof -
  assume a: "i < length jobs" "job_id y = job_id (jobs ! i)"
  have "(map job_id jobs)[i := map job_id jobs ! i] = map job_id jobs"
    by (rule list_update_id)
  moreover have "map job_id jobs ! i = job_id (jobs ! i)" using a by simp
  ultimately show ?thesis using a by (simp add: job_ids_def map_update)
qed

lemma map_of_assign_apply:
  "map_of (assign a b) k = (case map_of (rev b) k of Some v \<Rightarrow> Some v | None \<Rightarrow> map_of a k)"
  by (simp add: map_of_assign map_add_def split: option.splits)

lemma job_id_upserted: "job_id (JObj (assign a (nextJob t wid))) = [wid]"
  by (simp add: job_id_def map_of_assign_apply nextJob_def)

lemma job_ids_append: "job_ids (xs @ ys) = job_ids xs @ job_ids ys"
  by (simp add: job_ids_def)

lemma upsert_job_obj:
  assumes "upsert_job t wid (JObj kv) = Inr q"
  shows "\<exists>kv'. q = JObj kv'
           \<and> job_ids (jobs_of kv') = (if wid \<in> set (job_ids (jobs_of kv)) then job_ids (jobs_of kv)
                                       else job_ids (jobs_of kv) @ [wid])
           \<and> length (jobs_of kv') = (if wid \<in> set (job_ids (jobs_of kv)) then length (jobs_of kv)
                                       else Suc (length (jobs_of kv)))"
proof (cases "findIndex wid (jobs_of kv)")
  case (Inl e)
  with assms show ?thesis by simp
next
  case (Inr r)
  show ?thesis
  proof (cases r)
    case None
    with Inr have "wid \<notin> set (job_ids (jobs_of kv))" using findIndex_None by simp
    moreover have "job_id (JObj (nextJob t wid)) = [wid]" by (simp add: job_id_def nextJob_def)
    ultimately show ?thesis using assms Inr None
      by (auto simp: job_ids_append Let_def) (simp add: job_ids_def)
  next
    case (Some i)
    with Inr have i: "i < length (jobs_of kv)" "job_id (jobs_of kv ! i) = [wid]"
      using findIndex_Some by auto
    then have "wid \<in> set (job_id (jobs_of kv ! i))" by simp
    with i(1) have mem: "wid \<in> set (job_ids (jobs_of kv))"
      unfolding job_ids_def by (metis UN_I nth_mem set_concat set_map image_eqI)
    show ?thesis using assms Inr Some i mem
      by (auto simp: job_ids_update job_id_upserted Let_def)
  qed
qed

lemma store_artifact_queue: "store_artifact u s = (r, s1) \<Longrightarrow> queue_file s1 = queue_file s"
  by (auto simp: store_artifact_def Let_def split: option.splits intake_node.splits)

lemma write_metadata_queue: "write_metadata w v s = (r, s1) \<Longrightarrow> queue_file s1 = queue_file s"
  by (auto simp: write_metadata_def split: sum.splits)

lemma writeJsonAtomic_Inr: "writeJsonAtomic f v = Inr n \<Longrightarrow> n = File (Parses v)"
  by (cases "(f, v)" rule: writeJsonAtomic.cases) auto

lemma write_queue_cases:
  "write_queue q s = (r, s1) \<Longrightarrow>
     (r = Inr () \<and> queue_file s1 = Some (File (Parses q))) \<or> ((\<exists>e. r = Inl e) \<and> s1 = s)"
  using writeJsonAtomic_Inr [of "queue_file s" q]
  by (auto simp: write_queue_def split: sum.splits)

lemma enqueue_queue:
  assumes "enqueueUploadedWorksheet t u s = (r, s')"
  shows "(queue_file s' = queue_file s \<and> (\<exists>e. r = Inl e))
       \<or> (\<exists>q q' m. readJson (queue_file s) empty_queue = Inr q
             \<and> upsert_job t (worksheetId u) q = Inr q'
             \<and> queue_file s' = Some (File (Parses q')) \<and> r = Inr m)"
proof -
  obtain r1 s1 where a: "store_artifact u s = (r1, s1)" by (cases "store_artifact u s")
  then have q1: "queue_file s1 = queue_file s" by (rule store_artifact_queue)
  show ?thesis
  proof (cases r1)
    case (Inl e)
    with a have "enqueueUploadedWorksheet t u s = (Inl e, s1)"
      by (simp add: enqueueUploadedWorksheet_def)
    with assms q1 show ?thesis by auto
  next
    case ok1: (Inr x)
    let ?m = "JObj (fresh_metadata t u)"
    obtain r2 s2 where b: "write_metadata (worksheetId u) ?m s1 = (r2, s2)"
      by (cases "write_metadata (worksheetId u) ?m s1")
    then have q2: "queue_file s2 = queue_file s" using q1 write_metadata_queue by metis
    show ?thesis
    proof (cases r2)
      case (Inl e)
      with a ok1 b have "enqueueUploadedWorksheet t u s = (Inl e, s2)"
        by (simp add: enqueueUploadedWorksheet_def)
      with assms q2 show ?thesis by auto
    next
      case ok2: (Inr y)
      show ?thesis
      proof (cases "readJson (queue_file s2) empty_queue")
        case (Inl e)
        with a ok1 b ok2 have "enqueueUploadedWorksheet t u s = (Inl e, s2)"
          by (simp add: enqueueUploadedWorksheet_def)
        with assms q2 show ?thesis by auto
      next
        case rd: (Inr q)
        show ?thesis
        proof (cases "upsert_job t (worksheetId u) q")
          case (Inl e)
          with a ok1 b ok2 rd have "enqueueUploadedWorksheet t u s = (Inl e, s2)"
            by (simp add: enqueueUploadedWorksheet_def)
          with assms q2 show ?thesis by auto
        next
          case up: (Inr q')
          obtain r3 s3 where c: "write_queue q' s2 = (r3, s3)" by (cases "write_queue q' s2")
          from write_queue_cases [OF c] show ?thesis
          proof
            assume w: "r3 = Inr () \<and> queue_file s3 = Some (File (Parses q'))"
            with a ok1 b ok2 rd up c have "enqueueUploadedWorksheet t u s = (Inr ?m, s3)"
              by (simp add: enqueueUploadedWorksheet_def)
            with assms have "r = Inr ?m" "s' = s3" by auto
            with w rd up q2 show ?thesis by auto
          next
            assume "(\<exists>e. r3 = Inl e) \<and> s3 = s2"
            then obtain e where w: "r3 = Inl e" "s3 = s2" by blast
            with a ok1 b ok2 rd up c have "enqueueUploadedWorksheet t u s = (Inl e, s2)"
              by (simp add: enqueueUploadedWorksheet_def)
            with assms q2 show ?thesis by auto
          qed
        qed
      qed
    qed
  qed
qed

lemma readJson_queue_obj:
  "readJson (queue_file s) empty_queue = Inr (JObj kv) \<Longrightarrow> pending_jobs s = jobs_of kv"
  by (cases "queue_file s" rule: fs_readFile.cases)
     (auto simp: readJson_def pending_jobs_def empty_queue_def jobs_of_def system_error_def
              syntax_error_def
           split: content.splits if_splits)

lemma readJson_queue_other:
  "readJson (queue_file s) empty_queue = Inr q \<Longrightarrow> \<forall>kv. q \<noteq> JObj kv \<Longrightarrow>
     queue_file s = Some (File (Parses q)) \<and> pending_jobs s = []"
  by (cases "queue_file s" rule: fs_readFile.cases)
     (auto simp: readJson_def pending_jobs_def empty_queue_def system_error_def syntax_error_def
           split: content.splits if_splits json.splits)

lemma pending_jobs_written: "queue_file s = Some (File (Parses (JObj kv))) \<Longrightarrow> pending_jobs s = jobs_of kv"
  by (simp add: pending_jobs_def)

lemma enqueue_pending:
  assumes "enqueueUploadedWorksheet t u s = (r, s')" and wid: "wid = worksheetId u"
  shows "pending_jobs s' = pending_jobs s
       \<or> ((\<exists>m. r = Inr m)
          \<and> job_ids (pending_jobs s') =
              (if wid \<in> set (job_ids (pending_jobs s)) then job_ids (pending_jobs s)
               else job_ids (pending_jobs s) @ [wid])
          \<and> length (pending_jobs s') =
              (if wid \<in> set (job_ids (pending_jobs s)) then length (pending_jobs s)
               else Suc (length (pending_jobs s))))"
  using enqueue_queue [OF assms(1)]
proof
  assume "queue_file s' = queue_file s \<and> (\<exists>e. r = Inl e)"
  then show ?thesis by (simp add: pending_jobs_def)
next
  assume "\<exists>q q' m. readJson (queue_file s) empty_queue = Inr q
             \<and> upsert_job t (worksheetId u) q = Inr q'
             \<and> queue_file s' = Some (File (Parses q')) \<and> r = Inr m"
  then obtain q q' m where h: "readJson (queue_file s) empty_queue = Inr q"
    "upsert_job t wid q = Inr q'" "queue_file s' = Some (File (Parses q'))" "r = Inr m"
    using wid by blast
  show ?thesis
  proof (cases q)
    case (JObj kv)
    with h(1) have p: "pending_jobs s = jobs_of kv" using readJson_queue_obj by simp
    from h(2) JObj obtain kv' where kv': "q' = JObj kv'"
      "job_ids (jobs_of kv') = (if wid \<in> set (job_ids (jobs_of kv)) then job_ids (jobs_of kv)
                                       else job_ids (jobs_of kv) @ [wid])"
      "length (jobs_of kv') = (if wid \<in> set (job_ids (jobs_of kv)) then length (jobs_of kv)
                                       else Suc (length (jobs_of kv)))"
      using upsert_job_obj by blast
    from h(3) kv'(1) have "pending_jobs s' = jobs_of kv'" using pending_jobs_written by simp
    with p kv' h(4) show ?thesis by simp
  next
    case (JArr xs)
    with h(1) have "pending_jobs s = []" using readJson_queue_other [of s q] by simp
    moreover from h(2,3) JArr have "pending_jobs s' = []" by (auto simp: pending_jobs_def)
    ultimately show ?thesis by simp
  qed (use h(2) in simp_all)
qed

lemma enqueue_keeps_one_entry:
  assumes "one_entry_per_id (pending_jobs s)"
  shows "one_entry_per_id (pending_jobs (snd (enqueueUploadedWorksheet t u s)))"
proof -
  obtain r s' where e: "enqueueUploadedWorksheet t u s = (r, s')"
    by (cases "enqueueUploadedWorksheet t u s")
  from enqueue_pending [OF e refl] assms show ?thesis
    by (auto simp: one_entry_per_id_def e split: if_splits)
qed

lemma enqueue_all_keeps_one_entry:
  "one_entry_per_id (pending_jobs s) \<Longrightarrow> one_entry_per_id (pending_jobs (enqueue_all calls s))"
proof (induction calls arbitrary: s)
  case Nil
  then show ?case by simp
next
  case (Cons c calls)
  obtain t u where c: "c = (t, u)" by (cases c)
  from Cons.prems have "one_entry_per_id (pending_jobs (snd (enqueueUploadedWorksheet t u s)))"
    by (rule enqueue_keeps_one_entry)
  then show ?case using Cons.IH by (simp add: c)
qed

lemma entries_for_count: "length (entries_for wid jobs) = count_list (job_ids jobs) wid"
proof (induction jobs)
  case Nil
  then show ?case by (simp add: entries_for_def job_ids_def)
next
  case (Cons job jobs)
  have "count_list (job_id job) wid = (if field job ''worksheet_id'' = Some (JStr wid) then 1 else 0)"
    by (auto simp: job_id_def split: option.splits json.splits)
  with Cons show ?case
    by (simp add: entries_for_def job_ids_def)
qed

lemma distinct_count_le1: "distinct xs \<Longrightarrow> count_list xs x \<le> 1"
  by (induction xs) (auto simp: count_list_0_iff)

lemma singleton_from_member: "length xs \<le> 1 \<Longrightarrow> x \<in> set xs \<Longrightarrow> xs = [x]"
  by (cases xs) auto

lemma upsert_existing:
  assumes "upsert_job t wid (JObj kv) = Inr q" "wid \<in> set (job_ids (jobs_of kv))"
  shows "\<exists>i. i < length (jobs_of kv) \<and> job_id (jobs_of kv ! i) = [wid]
           \<and> q = JObj (AList.update ''jobs''
                   (JArr ((jobs_of kv)[i := JObj (assign (own_props (jobs_of kv ! i)) (nextJob t wid))])) kv)"
proof (cases "findIndex wid (jobs_of kv)")
  case (Inl e)
  with assms show ?thesis by simp
next
  case (Inr r)
  show ?thesis
  proof (cases r)
    case None
    with Inr assms(2) show ?thesis using findIndex_None by blast
  next
    case (Some i)
    with Inr have "i < length (jobs_of kv)" "job_id (jobs_of kv ! i) = [wid]"
      using findIndex_Some by auto
    with assms(1) Inr Some show ?thesis by (auto simp: Let_def)
  qed
qed

lemma enqueue_existing:
  assumes inv: "one_entry_per_id (pending_jobs s)"
    and mem: "worksheetId u \<in> set (job_ids (pending_jobs s))"
    and run: "enqueueUploadedWorksheet t u s = (Inr m, s')"
  shows "length (pending_jobs s') = length (pending_jobs s)
       \<and> (\<exists>job. entries_for (worksheetId u) (pending_jobs s') = [job]
               \<and> field job ''state'' = Some (JStr ''queued'')
               \<and> field job ''attempts'' = Some (JNum 0))"
proof -
  let ?wid = "worksheetId u"
  from enqueue_queue [OF run] obtain q q' where h:
    "readJson (queue_file s) empty_queue = Inr q" "upsert_job t ?wid q = Inr q'"
    "queue_file s' = Some (File (Parses q'))" by auto
  from mem have ne: "pending_jobs s \<noteq> []" by (auto simp: job_ids_def)
  have "\<exists>kv. q = JObj kv"
  proof (rule ccontr)
    assume "\<not> (\<exists>kv. q = JObj kv)"
    then have "pending_jobs s = []" using readJson_queue_other [OF h(1)] by simp
    with ne show False by simp
  qed
  then obtain kv where q: "q = JObj kv" by blast
  with h(1) have p: "pending_jobs s = jobs_of kv" using readJson_queue_obj by simp
  let ?jobs = "jobs_of kv"
  from upsert_existing [of t ?wid kv q'] h(2) q mem p obtain i where i:
    "i < length ?jobs" "job_id (?jobs ! i) = [?wid]"
    "q' = JObj (AList.update ''jobs''
             (JArr (?jobs[i := JObj (assign (own_props (?jobs ! i)) (nextJob t ?wid))])) kv)"
    by auto
  let ?new = "JObj (assign (own_props (?jobs ! i)) (nextJob t ?wid))"
  from h(3) i(3) have p': "pending_jobs s' = ?jobs[i := ?new]"
    by (simp add: pending_jobs_def)
  have ids: "job_ids (pending_jobs s') = job_ids ?jobs"
    unfolding p' using i(1,2) by (simp add: job_ids_update job_id_upserted)
  have "length (entries_for ?wid (pending_jobs s')) \<le> 1"
    unfolding entries_for_count ids using inv p distinct_count_le1 [of "job_ids ?jobs" ?wid]
    by (simp add: one_entry_per_id_def)
  moreover have "?new \<in> set (entries_for ?wid (pending_jobs s'))"
    unfolding p' entries_for_def using i(1)
    by (simp add: set_update_memI job_id_match job_id_upserted)
  ultimately have "entries_for ?wid (pending_jobs s') = [?new]"
    by (rule singleton_from_member)
  moreover have "field ?new ''state'' = Some (JStr ''queued'')"
    "field ?new ''attempts'' = Some (JNum 0)"
    by (simp_all add: map_of_assign_apply nextJob_def)
  ultimately show ?thesis using p p' by simp
qed

lemma layout_pending: "queue_file s = None \<Longrightarrow> pending_jobs (snd (ensureStorageLayout s)) = []"
  by (simp add: ensureStorageLayout_def fileExists_def write_queue_def pending_jobs_def
        empty_queue_def jobs_of_def)

text \<open>
  Claim C4. A pending list with at most one entry for each worksheet identifier keeps
  that property through every sequence of calls of \<open>enqueueUploadedWorksheet\<close>, whether
  they return or throw; the list that \<open>ensureStorageLayout\<close> creates has it. A call that
  returns for an identifier that has an entry leaves the length of the list as it was,
  and the one entry of that identifier is then in state \<open>queued\<close> with 0 attempts.
\<close>

theorem enqueue_one_entry_per_id:
  "(one_entry_per_id (pending_jobs s) \<longrightarrow>
      one_entry_per_id (pending_jobs (enqueue_all calls s))
      \<and> (worksheetId u \<in> set (job_ids (pending_jobs s))
           \<and> enqueueUploadedWorksheet t u s = (Inr m, s') \<longrightarrow>
         length (pending_jobs s') = length (pending_jobs s)
         \<and> (\<exists>job. entries_for (worksheetId u) (pending_jobs s') = [job]
                 \<and> field job ''state'' = Some (JStr ''queued'')
                 \<and> field job ''attempts'' = Some (JNum 0))))
   \<and> (queue_file s0 = None \<longrightarrow>
        one_entry_per_id (pending_jobs (enqueue_all calls (snd (ensureStorageLayout s0)))))"
proof (intro conjI impI)
  assume "one_entry_per_id (pending_jobs s)"
  then show "one_entry_per_id (pending_jobs (enqueue_all calls s))"
    by (rule enqueue_all_keeps_one_entry)
next
  assume "one_entry_per_id (pending_jobs s)"
    and "worksheetId u \<in> set (job_ids (pending_jobs s))
           \<and> enqueueUploadedWorksheet t u s = (Inr m, s')"
  then show "length (pending_jobs s') = length (pending_jobs s)"
    and "\<exists>job. entries_for (worksheetId u) (pending_jobs s') = [job]
                 \<and> field job ''state'' = Some (JStr ''queued'')
                 \<and> field job ''attempts'' = Some (JNum 0)"
    using enqueue_existing [of s u t m s'] by simp_all
next
  assume "queue_file s0 = None"
  then have "one_entry_per_id (pending_jobs (snd (ensureStorageLayout s0)))"
    by (simp add: layout_pending one_entry_per_id_def job_ids_def)
  then show "one_entry_per_id (pending_jobs (enqueue_all calls (snd (ensureStorageLayout s0))))"
    by (rule enqueue_all_keeps_one_entry)
qed

lemma demo_queued_inv: "one_entry_per_id (pending_jobs demo_queued)"
  by code_simp

lemma demo_queued_mem: "worksheetId demo_upload_b \<in> set (job_ids (pending_jobs demo_queued))"
  by code_simp

lemma demo_queued_len: "length (pending_jobs demo_queued) = 1"
  by code_simp

lemma demo_second_ok:
  "\<not> isl (fst (enqueueUploadedWorksheet ''2026-02-28T10:05:00.000Z'' demo_upload_b demo_queued))"
  by code_simp

text \<open>The theorem at the second upload of the repository's test.\<close>

theorem enqueue_one_entry_per_id_witness:
  "one_entry_per_id (pending_jobs demo_queued)
   \<and> worksheetId demo_upload_b \<in> set (job_ids (pending_jobs demo_queued))
   \<and> \<not> isl (fst (enqueueUploadedWorksheet ''2026-02-28T10:05:00.000Z'' demo_upload_b demo_queued))
   \<and> length (pending_jobs (snd (enqueueUploadedWorksheet ''2026-02-28T10:05:00.000Z''
                                  demo_upload_b demo_queued))) = 1
   \<and> (\<exists>job. entries_for (worksheetId demo_upload_b)
               (pending_jobs (snd (enqueueUploadedWorksheet ''2026-02-28T10:05:00.000Z''
                                  demo_upload_b demo_queued))) = [job]
            \<and> field job ''state'' = Some (JStr ''queued'')
            \<and> field job ''attempts'' = Some (JNum 0))
   \<and> one_entry_per_id (pending_jobs
        (enqueue_all [(''2026-02-28T10:05:00.000Z'', demo_upload_b)] demo_queued))
   \<and> queue_file demo_store = None
   \<and> one_entry_per_id (pending_jobs
        (enqueue_all [(''2026-02-28T10:05:00.000Z'', demo_upload_b)]
           (snd (ensureStorageLayout demo_store))))"
proof -
  let ?t = "''2026-02-28T10:05:00.000Z''"
  let ?x = "enqueueUploadedWorksheet ?t demo_upload_b demo_queued"
  have run: "?x = (Inr (projr (fst ?x)), snd ?x)"
    using demo_second_ok by (cases ?x) (auto simp: isl_def)
  have none: "queue_file demo_store = None" by (simp add: demo_store_def)
  note t = enqueue_one_entry_per_id [of demo_queued "[(?t, demo_upload_b)]" demo_upload_b ?t
      "projr (fst ?x)" "snd ?x" demo_store]
  from t demo_queued_inv demo_queued_mem run demo_queued_len demo_second_ok none
  show ?thesis by metis
qed

section \<open>Properties of the status view and of the bookkeeping of the pending list\<close>

lemma find_job_no_null: "JNull \<notin> set jobs \<Longrightarrow> \<exists>r. find_job wid jobs = Inr r"
  by (induction jobs) auto

lemma status_absent: "metadata_file s wid = None \<Longrightarrow> getWorksheetStatus s wid = Inr None"
  by (simp add: getWorksheetStatus_def fileExists_def)

lemma status_state_trimmed:
  assumes "getWorksheetStatus s wid = Inr (Some st)"
    and "readJson (metadata_file s wid) JNull = Inr metadata"
    and "field metadata ''state'' = Some (JStr x)" and "js_trim x \<noteq> []"
  shows "status_state st = js_trim x"
  using assms
  by (auto simp: getWorksheetStatus_def Let_def split: if_splits sum.splits option.splits json.splits)

lemma status_returns:
  assumes "metadata_file s wid = Some (File (Parses metadata))"
    and "field metadata ''state'' = Some (JStr x)" and "js_trim x \<noteq> []"
    and "queue_searchable s"
  shows "\<exists>st. getWorksheetStatus s wid = Inr (Some st) \<and> status_state st = js_trim x"
proof -
  from assms(2) obtain kv where m: "metadata = JObj kv" by (cases metadata) auto
  from assms(1) have rd: "readJson (metadata_file s wid) JNull = Inr metadata"
    by (simp add: readJson_def)
  from assms(4) obtain queue where q: "readJson (queue_file s) empty_queue = Inr queue"
    "queue \<noteq> JNull"
    "JNull \<notin> set (case field queue ''jobs'' of Some (JArr jobs) \<Rightarrow> jobs | _ \<Rightarrow> [])"
    by (auto simp: queue_searchable_def split: sum.splits)
  have "\<exists>r. (case field queue ''jobs'' of Some (JArr jobs) \<Rightarrow> find_job wid jobs
               | _ \<Rightarrow> Inr (Some JNull)) = Inr r"
    using q(3) find_job_no_null by (auto split: option.splits json.splits)
  then obtain r where r: "(case field queue ''jobs'' of Some (JArr jobs) \<Rightarrow> find_job wid jobs
               | _ \<Rightarrow> Inr (Some JNull)) = Inr r" by blast
  show ?thesis
    using assms(1,2,3) rd q(1,2) r m
    by (simp add: getWorksheetStatus_def fileExists_def Let_def)
qed

text \<open>
  Claim C5, as the code has it. \<open>getWorksheetStatus\<close> returns \<open>null\<close> when the metadata
  file is absent. When the metadata has a state that is a string and is not empty after
  trimming white space, every status that is returned has that trimmed state, whatever
  the pending list says; and a status is returned when the pending list can be read and
  searched.
\<close>

theorem status_prefers_metadata:
  "(metadata_file s wid = None \<longrightarrow> getWorksheetStatus s wid = Inr None)
   \<and> (getWorksheetStatus s wid = Inr (Some st)
        \<and> readJson (metadata_file s wid) JNull = Inr metadata
        \<and> field metadata ''state'' = Some (JStr x) \<and> js_trim x \<noteq> []
      \<longrightarrow> status_state st = js_trim x)
   \<and> (metadata_file s wid = Some (File (Parses metadata))
        \<and> field metadata ''state'' = Some (JStr x) \<and> js_trim x \<noteq> [] \<and> queue_searchable s
      \<longrightarrow> (\<exists>st. getWorksheetStatus s wid = Inr (Some st) \<and> status_state st = js_trim x))"
  using status_absent status_state_trimmed status_returns by blast

lemma blank_state_status:
  "getWorksheetStatus (blank_state_store ''  '') ''ws_20260228_feed01'' =
     Inr (Some \<lparr>status_worksheet_id = Some (JStr ''ws_20260228_feed01''), status_state = ''failed'',
                 status_uploaded_at = JStr ''2026-02-28T10:00:00.000Z'',
                 status_integrated_at = JNull, status_last_error = JNull\<rparr>)"
  by code_simp

lemma spaced_state_status:
  "getWorksheetStatus (blank_state_store ''queued '') ''ws_20260228_feed01'' =
     Inr (Some \<lparr>status_worksheet_id = Some (JStr ''ws_20260228_feed01''), status_state = ''queued'',
                 status_uploaded_at = JStr ''2026-02-28T10:00:00.000Z'',
                 status_integrated_at = JNull, status_last_error = JNull\<rparr>)"
  by code_simp

lemma stale_store_facts:
  "metadata_file (blank_state_store ''queued'') ''ws_20260228_feed01'' =
     Some (File (Parses (JObj
          [(''worksheet_id'', JStr ''ws_20260228_feed01''), (''state'', JStr ''queued''),
           (''uploaded_at'', JStr ''2026-02-28T10:00:00.000Z''), (''integrated_at'', JNull),
           (''last_error'', JNull)])))"
  "queue_searchable (blank_state_store ''queued'')"
  "js_trim ''queued'' = ''queued''"
  "metadata_file (blank_state_store ''queued'') ''ws_20260228_000000'' = None"
  "map (\<lambda>job. field job ''state'') (pending_jobs (blank_state_store ''queued'')) = [Some (JStr ''failed'')]"
  by code_simp+

lemma stale_store_status:
  "getWorksheetStatus (blank_state_store ''queued'') ''ws_20260228_feed01'' =
     Inr (Some \<lparr>status_worksheet_id = Some (JStr ''ws_20260228_feed01''), status_state = ''queued'',
                 status_uploaded_at = JStr ''2026-02-28T10:00:00.000Z'',
                 status_integrated_at = JNull, status_last_error = JNull\<rparr>)"
  by code_simp

text \<open>The theorem at the store of the repository's test: metadata \<open>queued\<close>, pending
  list \<open>failed\<close>.\<close>

theorem status_prefers_metadata_witness:
  "queue_searchable (blank_state_store ''queued'')
   \<and> map (\<lambda>job. field job ''state'') (pending_jobs (blank_state_store ''queued'')) = [Some (JStr ''failed'')]
   \<and> (\<exists>st. getWorksheetStatus (blank_state_store ''queued'') ''ws_20260228_feed01'' = Inr (Some st)
           \<and> status_state st = ''queued'')
   \<and> metadata_file (blank_state_store ''queued'') ''ws_20260228_000000'' = None
   \<and> getWorksheetStatus (blank_state_store ''queued'') ''ws_20260228_000000'' = Inr None"
proof -
  let ?s = "blank_state_store ''queued''"
  let ?m = "JObj [(''worksheet_id'', JStr ''ws_20260228_feed01''), (''state'', JStr ''queued''),
           (''uploaded_at'', JStr ''2026-02-28T10:00:00.000Z''), (''integrated_at'', JNull),
           (''last_error'', JNull)]"
  have f: "field ?m ''state'' = Some (JStr ''queued'')" by simp
  have ne: "js_trim ''queued'' \<noteq> []" unfolding stale_store_facts(3) by simp
  from status_prefers_metadata [of ?s "''ws_20260228_feed01''" undefined ?m "''queued''"]
    stale_store_facts(1,2) f ne
  have a: "\<exists>st. getWorksheetStatus ?s ''ws_20260228_feed01'' = Inr (Some st)
           \<and> status_state st = js_trim ''queued''" by blast
  from status_prefers_metadata [of ?s "''ws_20260228_000000''" undefined ?m "''queued''"]
    stale_store_facts(4)
  have b: "getWorksheetStatus ?s ''ws_20260228_000000'' = Inr None" by blast
  let ?st = "\<lparr>status_worksheet_id = Some (JStr ''ws_20260228_feed01''), status_state = ''queued'',
                 status_uploaded_at = JStr ''2026-02-28T10:00:00.000Z'',
                 status_integrated_at = JNull, status_last_error = JNull\<rparr>"
  have rd: "readJson (metadata_file ?s ''ws_20260228_feed01'') JNull = Inr ?m"
    unfolding stale_store_facts(1) by (simp add: readJson_def)
  from status_prefers_metadata [of ?s "''ws_20260228_feed01''" ?st ?m "''queued''"]
    stale_store_status rd f ne
  have c: "status_state ?st = js_trim ''queued''" by blast
  from a b c stale_store_facts show ?thesis by simp
qed

text \<open>
  Claim C5 as it is stated fails for a metadata state with white space around it: a state
  of two spaces is not empty, and the status has the state of the pending list; the
  state \<open>queued\<close> with a trailing space comes back without the space.
\<close>

theorem status_prefers_metadata_counterexample:
  "getWorksheetStatus (blank_state_store ''  '') ''ws_20260228_feed01'' =
     Inr (Some \<lparr>status_worksheet_id = Some (JStr ''ws_20260228_feed01''), status_state = ''failed'',
                 status_uploaded_at = JStr ''2026-02-28T10:00:00.000Z'',
                 status_integrated_at = JNull, status_last_error = JNull\<rparr>)
   \<and> getWorksheetStatus (blank_state_store ''queued '') ''ws_20260228_feed01'' =
     Inr (Some \<lparr>status_worksheet_id = Some (JStr ''ws_20260228_feed01''), status_state = ''queued'',
                 status_uploaded_at = JStr ''2026-02-28T10:00:00.000Z'',
                 status_integrated_at = JNull, status_last_error = JNull\<rparr>)"
  using blank_state_status spaced_state_status by (rule conjI)



text \<open>
  Claim C3 at the upload of an identifier whose entry is in state \<open>processing\<close>: the
  upsert of \<open>enqueueUploadedWorksheet\<close> puts the entry back to \<open>queued\<close> and keeps its
  \<open>started_at\<close>, which \<open>updateQueueState\<close> removes when an entry leaves \<open>processing\<close>.
\<close>

theorem enqueue_keeps_started_at:
  "pending_jobs demo_claimed =
     [JObj [(''worksheet_id'', JStr ''ws_20260228_c0ffee''), (''state'', JStr ''processing''),
            (''attempts'', JNum 1), (''queued_at'', JStr ''2026-02-28T10:00:00.000Z''),
            (''started_at'', JStr ''2026-02-28T10:01:00.000Z'')]]
   \<and> pending_jobs (snd (enqueueUploadedWorksheet ''2026-02-28T10:05:00.000Z'' demo_upload_b demo_claimed)) =
     [JObj [(''worksheet_id'', JStr ''ws_20260228_c0ffee''), (''state'', JStr ''queued''),
            (''attempts'', JNum 0), (''queued_at'', JStr ''2026-02-28T10:05:00.000Z''),
            (''started_at'', JStr ''2026-02-28T10:01:00.000Z'')]]
   \<and> pending_jobs (snd (updateQueueState ''2026-02-28T10:07:00.000Z'' ''ws_20260228_c0ffee''
                          ''failed'' demo_claimed)) =
     [JObj [(''worksheet_id'', JStr ''ws_20260228_c0ffee''), (''state'', JStr ''failed''),
            (''attempts'', JNum 1), (''queued_at'', JStr ''2026-02-28T10:00:00.000Z'')]]"
proof (intro conjI)
  show "pending_jobs demo_claimed =
     [JObj [(''worksheet_id'', JStr ''ws_20260228_c0ffee''), (''state'', JStr ''processing''),
            (''attempts'', JNum 1), (''queued_at'', JStr ''2026-02-28T10:00:00.000Z''),
            (''started_at'', JStr ''2026-02-28T10:01:00.000Z'')]]"
    by code_simp
  show "pending_jobs (snd (enqueueUploadedWorksheet ''2026-02-28T10:05:00.000Z'' demo_upload_b demo_claimed)) =
     [JObj [(''worksheet_id'', JStr ''ws_20260228_c0ffee''), (''state'', JStr ''queued''),
            (''attempts'', JNum 0), (''queued_at'', JStr ''2026-02-28T10:05:00.000Z''),
            (''started_at'', JStr ''2026-02-28T10:01:00.000Z'')]]"
    by code_simp
  show "pending_jobs (snd (updateQueueState ''2026-02-28T10:07:00.000Z'' ''ws_20260228_c0ffee''
                          ''failed'' demo_claimed)) =
     [JObj [(''worksheet_id'', JStr ''ws_20260228_c0ffee''), (''state'', JStr ''failed''),
            (''attempts'', JNum 1), (''queued_at'', JStr ''2026-02-28T10:00:00.000Z'')]]"
    by code_simp
qed

section \<open>Properties of the batch loop\<close>

lemma readJson_absent: "readJson None fallback = Inr fallback"
  by (simp add: readJson_def system_error_def)

lemma processWorksheet_no_metadata:
  "metadata_file s wid = None \<Longrightarrow>
     processWorksheet c pipeline wid s = (Inl (new_Error (''No metadata found for '' @ wid)), s)"
  by (simp add: processWorksheet_def readJson_absent)

lemma updateMetadata_no_metadata:
  "metadata_file s wid = None \<Longrightarrow>
     updateMetadata wid patch s = (Inl (new_Error (''Missing metadata for '' @ wid)), s)"
  by (simp add: updateMetadata_def readJson_absent)

lemma markFailure_no_metadata:
  "metadata_file s wid = None \<Longrightarrow>
     markFailure c wid message s = (Inl (new_Error (''Missing metadata for '' @ wid)), s)"
  by (simp add: markFailure_def updateMetadata_no_metadata)

lemma process_all_no_metadata:
  "metadata_file s wid = None \<Longrightarrow>
     process_all c pipeline (wid # wids) s = (Inl (new_Error (''Missing metadata for '' @ wid)), s)"
  by (simp add: processWorksheet_no_metadata markFailure_no_metadata)

lemma process_all_append:
  "process_all c pipeline pre s = (Inr rows, s1) \<Longrightarrow>
   process_all c pipeline (pre @ rest) s =
     (case process_all c pipeline rest s1 of
        (Inl e, s') \<Rightarrow> (Inl e, s')
      | (Inr rest_rows, s') \<Rightarrow> (Inr (rows @ rest_rows), s'))"
proof (induction pre arbitrary: s rows)
  case Nil
  then show ?case by (auto split: prod.splits sum.splits)
next
  case (Cons w ws)
  show ?case
  proof (cases "processWorksheet c pipeline w s")
    case (Pair r sa)
    show ?thesis
    proof (cases r)
      case (Inr result)
      with Pair Cons.prems obtain rows' where
        r: "process_all c pipeline ws sa = (Inr rows', s1)" "rows = result # rows'"
        by (auto split: prod.splits sum.splits)
      from Cons.IH [OF r(1)] Pair Inr r(2) show ?thesis
        by (auto split: prod.splits sum.splits)
    next
      case (Inl err)
      with Pair Cons.prems obtain sb rows' where
        r: "markFailure c w (failure_message err) sa = (Inr (), sb)"
           "process_all c pipeline ws sb = (Inr rows', s1)"
           "rows = Failed w (failure_message err) # rows'"
        by (auto simp: Let_def split: prod.splits sum.splits)
      from Cons.IH [OF r(2)] Pair Inl r(1,3) show ?thesis
        by (auto simp: Let_def split: prod.splits sum.splits)
    qed
  qed
qed

text \<open>
  Claim C10. When the metadata file of a worksheet does not exist, \<open>processWorksheet\<close>
  throws before it changes anything, \<open>markFailure\<close> throws as well, and the loop of
  \<open>main\<close> ends with that error: the store is as it was, nothing is recorded for the
  worksheet, and the identifiers after it are not processed. This holds for an explicit
  target and for an identifier anywhere in the list.
\<close>

theorem missing_metadata_aborts_batch:
  "metadata_file s wid = None \<longrightarrow>
     processWorksheet c pipeline wid s = (Inl (new_Error (''No metadata found for '' @ wid)), s)
     \<and> markFailure c wid message s = (Inl (new_Error (''Missing metadata for '' @ wid)), s)
     \<and> process_all c pipeline (wid # wids) s = (Inl (new_Error (''Missing metadata for '' @ wid)), s)
     \<and> (wid \<noteq> [] \<longrightarrow>
          main c pipeline (Some wid) s = (Inl (new_Error (''Missing metadata for '' @ wid)), s))
     \<and> (process_all c pipeline before s0 = (Inr rows, s) \<longrightarrow>
          process_all c pipeline (before @ wid # wids) s0 =
            (Inl (new_Error (''Missing metadata for '' @ wid)), s))"
proof (intro impI conjI)
  assume a: "metadata_file s wid = None"
  show "processWorksheet c pipeline wid s = (Inl (new_Error (''No metadata found for '' @ wid)), s)"
    using a by (rule processWorksheet_no_metadata)
  show "markFailure c wid message s = (Inl (new_Error (''Missing metadata for '' @ wid)), s)"
    using a by (rule markFailure_no_metadata)
  show b: "process_all c pipeline (wid # wids) s = (Inl (new_Error (''Missing metadata for '' @ wid)), s)"
    using a by (rule process_all_no_metadata)
  show "main c pipeline (Some wid) s = (Inl (new_Error (''Missing metadata for '' @ wid)), s)"
    if "wid \<noteq> []"
  proof -
    from that obtain x xs where "wid = x # xs" by (cases wid) auto
    then have "resolveWorksheetIds c (Some wid) s = (Inr [wid], s)"
      by (simp add: resolveWorksheetIds_def)
    then show ?thesis using process_all_no_metadata [OF a, of c pipeline "[]"]
      by (simp add: main_def)
  qed
  show "process_all c pipeline (before @ wid # wids) s0 =
            (Inl (new_Error (''Missing metadata for '' @ wid)), s)"
    if "process_all c pipeline before s0 = (Inr rows, s)"
    using process_all_append [OF that, of "wid # wids"] b by simp
qed

lemma demo_batch_first:
  "process_all demo_env (\<lambda>w. None) [''ws_20260228_c0ffee''] demo_queued =
     (Inr [Integrated ''ws_20260228_c0ffee''],
      snd (process_all demo_env (\<lambda>w. None) [''ws_20260228_c0ffee''] demo_queued))"
  by code_simp

lemma demo_batch_missing:
  "metadata_file (snd (process_all demo_env (\<lambda>w. None) [''ws_20260228_c0ffee''] demo_queued))
     ''ws_20260228_000000'' = None"
  by code_simp

text \<open>The theorem after the worksheet of the test has been integrated, at an identifier
  that has no metadata.\<close>

theorem missing_metadata_aborts_batch_witness:
  "metadata_file (snd (process_all demo_env (\<lambda>w. None) [''ws_20260228_c0ffee''] demo_queued))
     ''ws_20260228_000000'' = None
   \<and> main demo_env (\<lambda>w. None) (Some ''ws_20260228_000000'')
        (snd (process_all demo_env (\<lambda>w. None) [''ws_20260228_c0ffee''] demo_queued)) =
       (Inl (new_Error ''Missing metadata for ws_20260228_000000''),
        snd (process_all demo_env (\<lambda>w. None) [''ws_20260228_c0ffee''] demo_queued))
   \<and> process_all demo_env (\<lambda>w. None)
        [''ws_20260228_c0ffee'', ''ws_20260228_000000'', ''ws_20260228_c0ffee''] demo_queued =
       (Inl (new_Error ''Missing metadata for ws_20260228_000000''),
        snd (process_all demo_env (\<lambda>w. None) [''ws_20260228_c0ffee''] demo_queued))"
proof -
  let ?s = "snd (process_all demo_env (\<lambda>w. None) [''ws_20260228_c0ffee''] demo_queued)"
  note t = missing_metadata_aborts_batch [of ?s "''ws_20260228_000000''" demo_env "\<lambda>w. None"
      "[]" "[''ws_20260228_c0ffee'']" "[''ws_20260228_c0ffee'']" demo_queued
      "[Integrated ''ws_20260228_c0ffee'']"]
  have ne: "''ws_20260228_000000'' \<noteq> []" by simp
  from t demo_batch_missing demo_batch_first ne show ?thesis by simp
qed






lemma entries_for_other:
  "field job ''worksheet_id'' \<noteq> Some (JStr wid) \<Longrightarrow> update_job now wid st job = job"
  by (simp add: update_job_def)

























lemma array_discovered:
  "fst (resolveWorksheetIds demo_env None array_queue_store) = Inr [''ws_20260228_c0ffee'']"
  by code_simp






section \<open>Properties of job discovery\<close>

lemma capped_queue_scan:
  "scan_queue demo_env (one_job_store capped_job capped_metadata)
     (pending_jobs (one_job_store capped_job capped_metadata)) = Inr []"
  by code_simp

lemma capped_attempts:
  "map (\<lambda>job. field job ''attempts'') (pending_jobs (one_job_store capped_job capped_metadata)) =
     [Some (JNum 4)]"
  by code_simp

lemma capped_cap: "maxFailedAttempts demo_env = 4 \<and> retryFailedJobs demo_env"
  by code_simp

lemma capped_metadata_scan:
  "scan_metadata demo_env (one_job_store capped_job capped_metadata)
     (metadata_dir (one_job_store capped_job capped_metadata)) = [''ws_20260228_c0ffee'']"
  by code_simp

lemma capped_resolved:
  "fst (resolveWorksheetIds demo_env None (one_job_store capped_job capped_metadata)) =
     Inr [''ws_20260228_c0ffee'']"
  by code_simp

lemma select_job_processing:
  assumes "field job ''worksheet_id'' = Some (JStr w)" "js_trim w \<noteq> []"
    "field job ''state'' = Some (JStr ''processing'')"
  shows "select_job c s job = Inr (if is_stale c job then Some (js_trim w) else None)"
  using assms by (simp add: select_job_def Let_def is_stale_def started_ms_def)

lemma select_job_failed:
  assumes "field job ''worksheet_id'' = Some (JStr w)" "js_trim w \<noteq> []"
    "field job ''state'' = Some (JStr ''failed'')"
  shows "select_job c s job =
           (if \<not> retryFailedJobs c \<or> finite_or (field job ''attempts'') 0 \<ge> maxFailedAttempts c
            then Inr None
            else case readJson (metadata_file s (js_trim w)) JNull of
                   Inl e \<Rightarrow> Inl e
                 | Inr metadata \<Rightarrow>
                     Inr (if isRetryableFailure (field metadata ''last_error'')
                          then Some (js_trim w) else None))"
  using assms by (simp add: select_job_def Let_def)

lemma missing_started_is_stale: "field job ''started_at'' = None \<Longrightarrow> is_stale c job"
  by (simp add: is_stale_def started_ms_def String_or_empty_def js_Date_parse_def)

lemma scan_queue_set:
  "scan_queue c s jobs = Inr picked \<Longrightarrow>
     set picked = {w. \<exists>job\<in>set jobs. select_job c s job = Inr (Some w)}"
proof (induction jobs arbitrary: picked)
  case Nil
  then show ?case by simp
next
  case (Cons job jobs)
  from Cons.prems obtain p rest where pr: "select_job c s job = Inr p"
    "scan_queue c s jobs = Inr rest"
    "picked = (case p of None \<Rightarrow> [] | Some w \<Rightarrow> [w]) @ rest"
    by (auto split: sum.splits)
  from Cons.IH [OF pr(2)] pr(1,3) show ?case
    by (cases p) auto
qed

lemma set_dedupe: "set (dedupe xs) = set xs"
proof (induction xs rule: dedupe.induct)
  case 1
  then show ?case by simp
next
  case (2 x xs)
  then show ?case by auto
qed

lemma queue_jobs_pending:
  "readJson (queue_file s) empty_queue = Inr queue \<Longrightarrow>
     (case field queue ''jobs'' of Some (JArr jobs) \<Rightarrow> jobs | _ \<Rightarrow> []) = pending_jobs s"
  by (cases "queue_file s" rule: fs_readFile.cases)
     (auto simp: readJson_def pending_jobs_def empty_queue_def jobs_of_def system_error_def
           syntax_error_def
         split: content.splits if_splits json.splits option.splits)

lemma resolve_set:
  assumes "resolveWorksheetIds c None s = (Inr ids, s')"
  shows "set ids = {w. \<exists>job\<in>set (pending_jobs s). select_job c s job = Inr (Some w)}
           \<union> set (scan_metadata c s (metadata_dir s))
           \<union> set (fst (scan_intake c (intake_dir s) s))"
proof -
  from assms obtain queue where q: "readJson (queue_file s) empty_queue = Inr queue"
    by (auto simp: resolveWorksheetIds_def split: sum.splits)
  let ?jobs = "case field queue ''jobs'' of Some (JArr jobs) \<Rightarrow> jobs | _ \<Rightarrow> []"
  have sq: "(case field queue ''jobs'' of Some (JArr jobs) \<Rightarrow> scan_queue c s jobs | _ \<Rightarrow> Inr [])
             = scan_queue c s ?jobs"
    by (auto split: option.splits json.splits)
  from assms q obtain picked where p0:
    "(case field queue ''jobs'' of Some (JArr jobs) \<Rightarrow> scan_queue c s jobs | _ \<Rightarrow> Inr []) = Inr picked"
    "ids = dedupe (picked @ scan_metadata c s (metadata_dir s) @ fst (scan_intake c (intake_dir s) s))"
    by (auto simp: resolveWorksheetIds_def Let_def split: sum.splits if_splits prod.splits)
  from p0 have p: "scan_queue c s ?jobs = Inr picked"
    "ids = dedupe (picked @ scan_metadata c s (metadata_dir s) @ fst (scan_intake c (intake_dir s) s))"
    unfolding sq by simp_all
  from scan_queue_set [OF p(1)] queue_jobs_pending [OF q] p(2) show ?thesis
    by (auto simp: set_dedupe)
qed

text \<open>
  Claim C1 at a job that has reached the cap: with the default cap of 4 and retries on,
  the scan of the pending list leaves out the failed job with 4 attempts, and the scan
  of the metadata directory, which looks at \<open>state\<close> and \<open>last_error\<close> only, returns it.
\<close>

theorem capped_job_rediscovered:
  "maxFailedAttempts demo_env = 4 \<and> retryFailedJobs demo_env
   \<and> map (\<lambda>job. field job ''attempts'') (pending_jobs (one_job_store capped_job capped_metadata)) =
        [Some (JNum 4)]
   \<and> scan_queue demo_env (one_job_store capped_job capped_metadata)
        (pending_jobs (one_job_store capped_job capped_metadata)) = Inr []
   \<and> scan_metadata demo_env (one_job_store capped_job capped_metadata)
        (metadata_dir (one_job_store capped_job capped_metadata)) = [''ws_20260228_c0ffee'']
   \<and> fst (resolveWorksheetIds demo_env None (one_job_store capped_job capped_metadata)) =
        Inr [''ws_20260228_c0ffee'']"
  using capped_cap capped_attempts capped_queue_scan capped_metadata_scan capped_resolved
  by blast

lemma select_job_names:
  assumes "select_job c s job = Inr (Some wid)"
  shows "names_id job wid \<and> (field job ''state'' = Some (JStr ''processing'') \<longrightarrow> is_stale c job)"
proof -
  from assms obtain w where w: "field job ''worksheet_id'' = Some (JStr w)"
    by (auto simp: select_job_def split: option.splits json.splits)
  with assms have ne: "js_trim w \<noteq> []"
    by (auto simp: select_job_def Let_def split: if_splits)
  show ?thesis
  proof (cases "field job ''state'' = Some (JStr ''processing'')")
    case True
    from select_job_processing [OF w ne True, of c s] assms w show ?thesis
      by (auto simp: names_id_def split: if_splits)
  next
    case False
    with assms w ne show ?thesis
      by (auto simp: select_job_def Let_def names_id_def split: if_splits sum.splits)
  qed
qed

lemma scan_metadata_step:
  assumes "wid \<in> set (scan_metadata c s ((name, n) # entries))"
  shows "wid \<in> set (scan_metadata c s entries)
         \<or> (\<exists>m. readJson (map_of (metadata_dir s) name) JNull = Inr m \<and> names_id m wid \<and> \<not> on_hold m)"
proof (cases "\<not> is_file n \<or> \<not> ends_with ''.json'' name")
  case True
  with assms show ?thesis by simp
next
  case False
  show ?thesis
  proof (cases "readJson (map_of (metadata_dir s) name) JNull")
    case (Inl e)
    with assms False show ?thesis by simp
  next
    case (Inr m)
    show ?thesis
    proof (cases "\<exists>w. field m ''worksheet_id'' = Some (JStr w)")
      case True
      then obtain w where w: "field m ''worksheet_id'' = Some (JStr w)" by blast
      with assms False Inr show ?thesis
        by (auto simp: names_id_def on_hold_def split: if_splits)
    next
      case False
      with assms \<open>\<not> (\<not> is_file n \<or> \<not> ends_with ''.json'' name)\<close> Inr show ?thesis
        by (auto split: option.splits json.splits)
    qed
  qed
qed

lemma scan_metadata_offer:
  assumes "wid \<in> set (scan_metadata c s entries)"
  shows "\<exists>name n m. (name, n) \<in> set entries \<and> readJson (map_of (metadata_dir s) name) JNull = Inr m
           \<and> names_id m wid \<and> \<not> on_hold m"
  using assms
proof (induction entries)
  case Nil
  then show ?case by simp
next
  case (Cons x entries)
  obtain name n where x: "x = (name, n)" by (cases x)
  from scan_metadata_step [OF Cons.prems [unfolded x]] show ?case
  proof
    assume "wid \<in> set (scan_metadata c s entries)"
    from Cons.IH [OF this] show ?thesis by auto
  next
    assume "\<exists>m. readJson (map_of (metadata_dir s) name) JNull = Inr m \<and> names_id m wid \<and> \<not> on_hold m"
    with x show ?thesis by auto
  qed
qed

lemma write_metadata_other:
  assumes "write_metadata name v s = (r, s1)" "name \<noteq> wid"
  shows "metadata_file s1 wid = metadata_file s wid"
proof (cases "writeJsonAtomic (metadata_file s name) v")
  case (Inl e)
  with assms show ?thesis by (simp add: write_metadata_def)
next
  case (Inr node)
  with assms show ?thesis
    by (auto simp: write_metadata_def metadata_file_def update_conv' metadata_path_def)
qed

lemma ensure_other:
  assumes "ensureMetadataFromIntake c name mtime s = (r, s1)" "name \<noteq> wid"
  shows "metadata_file s1 wid = metadata_file s wid"
proof (cases "readJson (metadata_file s name) JNull")
  case (Inl e)
  with assms show ?thesis by (simp add: ensureMetadataFromIntake_def)
next
  case (Inr existing)
  show ?thesis
  proof (cases "truthy (Some existing)")
    case True
    with assms Inr show ?thesis by (simp add: ensureMetadataFromIntake_def)
  next
    case False
    let ?m = "JObj [(''worksheet_id'', JStr name), (''title'', JNull), (''owner_email'', JNull),
                    (''original_filename'', JStr ''original.zip''),
                    (''artifact_path'', JStr (artifact_path name)),
                    (''state'', JStr ''queued''), (''uploaded_at'', JStr mtime),
                    (''integrated_at'', JNull), (''last_error'', JNull)]"
    obtain r' s' where w: "write_metadata name ?m s = (r', s')"
      by (cases "write_metadata name ?m s")
    with assms(1) Inr False have "s1 = s'"
      by (auto simp: ensureMetadataFromIntake_def Let_def split: sum.splits)
    with write_metadata_other [OF w assms(2)] show ?thesis by simp
  qed
qed

lemma ensure_existing:
  "readJson (metadata_file s wid) JNull = Inr m \<Longrightarrow> truthy (Some m) \<Longrightarrow>
     ensureMetadataFromIntake c wid mtime s = (Inr m, s)"
  by (simp add: ensureMetadataFromIntake_def)

lemma scan_intake_on_hold:
  assumes "readJson (metadata_file s wid) JNull = Inr m" "truthy (Some m)"
    "field m ''state'' \<noteq> Some (JStr ''queued'')"
  shows "wid \<notin> set (fst (scan_intake c entries s))"
  using assms(1)
proof (induction entries arbitrary: s)
  case Nil
  then show ?case by simp
next
  case (Cons x entries)
  obtain name node where x: "x = (name, node)" by (cases x)
  show ?case
  proof (cases node)
    case IntakeFile
    with Cons x show ?thesis by simp
  next
    case (IntakeDir archive)
    show ?thesis
    proof (cases "isWorksheetId (Some (JStr name)) \<and> archive \<noteq> None")
      case False
      with Cons x IntakeDir show ?thesis by (cases archive) auto
    next
      case True
      then obtain mtime where a: "archive = Some mtime" and valid: "isWorksheetId (Some (JStr name))"
        by auto
      obtain r s1 where e: "ensureMetadataFromIntake c name mtime s = (r, s1)"
        by (cases "ensureMetadataFromIntake c name mtime s")
      show ?thesis
      proof (cases "name = wid")
        case True
        with ensure_existing [OF Cons.prems assms(2), of c mtime] e
        have r: "r = Inr m" "s1 = s" by simp_all
        from Cons.IH [OF Cons.prems] e r assms(3) x IntakeDir a valid show ?thesis by simp
      next
        case False
        from ensure_other [OF e False] Cons.prems
        have "readJson (metadata_file s1 wid) JNull = Inr m" by simp
        from Cons.IH [OF this] e False x IntakeDir a valid show ?thesis
          by (cases r) (auto split: prod.splits)
      qed
    qed
  qed
qed

lemma metadata_on_hold_file:
  "metadata_on_hold s wid \<Longrightarrow>
     \<exists>m. readJson (metadata_file s wid) JNull = Inr m \<and> truthy (Some m)
            \<and> field m ''state'' \<noteq> Some (JStr ''queued'')"
  by (auto simp: metadata_on_hold_def on_hold_def split: sum.splits)

lemma metadata_on_hold_dir:
  "metadata_on_hold s wid \<Longrightarrow> (name, n) \<in> set (metadata_dir s) \<Longrightarrow>
     readJson (map_of (metadata_dir s) name) JNull = Inr m \<Longrightarrow> names_id m wid \<Longrightarrow> on_hold m"
  by (auto simp: metadata_on_hold_def list_all_iff)

text \<open>An identifier whose entries of the pending list are all processing and not stale,
  and whose metadata is on hold, is not among the identifiers returned.\<close>

lemma fresh_not_resolved:
  assumes "\<forall>job\<in>set (pending_jobs s). names_id job wid \<longrightarrow>
             field job ''state'' = Some (JStr ''processing'') \<and> \<not> is_stale c job"
    and "metadata_on_hold s wid"
    and "resolveWorksheetIds c None s = (Inr ids, s')"
  shows "wid \<notin> set ids"
proof
  assume "wid \<in> set ids"
  with resolve_set [OF assms(3)]
  consider (queue) job where "job \<in> set (pending_jobs s)" "select_job c s job = Inr (Some wid)"
    | (metadata) "wid \<in> set (scan_metadata c s (metadata_dir s))"
    | (intake) "wid \<in> set (fst (scan_intake c (intake_dir s) s))"
    by auto
  then show False
  proof cases
    case queue
    from select_job_names [OF queue(2)] assms(1) queue(1) show False by blast
  next
    case metadata
    from scan_metadata_offer [OF metadata] metadata_on_hold_dir [OF assms(2)] show False by blast
  next
    case intake
    from metadata_on_hold_file [OF assms(2)] obtain m where
      "readJson (metadata_file s wid) JNull = Inr m" "truthy (Some m)"
      "field m ''state'' \<noteq> Some (JStr ''queued'')" by blast
    from scan_intake_on_hold [OF this, of c "intake_dir s"] intake show False by simp
  qed
qed

text \<open>
  Claim C6, as the code has it. The scan of the pending list selects a job in state
  \<open>processing\<close> (with an identifier that is a string and not blank) exactly when it is
  stale: its \<open>started_at\<close> is missing or does not parse, or the time since then is the
  threshold or more. The threshold is \<open>PROCESSING_STALE_MS\<close>, rounded down, when that
  is a positive number, and 20 minutes otherwise. A stale job of the pending list is
  among the identifiers that \<open>resolveWorksheetIds\<close> returns, and these are the
  identifiers that the three scans select. An identifier whose entries of the pending
  list are processing and not stale is not returned when its metadata is on hold
  (neither queued nor failed); the scan of the metadata directory does not look at the
  pending list.
\<close>

theorem stale_processing_reselected:
  "(field job ''worksheet_id'' = Some (JStr w) \<and> js_trim w \<noteq> []
      \<and> field job ''state'' = Some (JStr ''processing'') \<longrightarrow>
        select_job c s job = Inr (if is_stale c job then Some (js_trim w) else None)
        \<and> (job \<in> set (pending_jobs s) \<and> resolveWorksheetIds c None s = (Inr ids, s')
             \<and> is_stale c job \<longrightarrow> js_trim w \<in> set ids))
   \<and> (field job ''started_at'' = None \<longrightarrow> is_stale c job)
   \<and> (started_ms c job = None \<longrightarrow> is_stale c job)
   \<and> (started_ms c job = Some t \<longrightarrow> is_stale c job = (now_ms c - t \<ge> staleProcessingMs c))
   \<and> (PROCESSING_STALE_MS c = None \<longrightarrow> staleProcessingMs c = 20 * 60 * 1000)
   \<and> (PROCESSING_STALE_MS c = Some x \<longrightarrow>
         staleProcessingMs c = (if 0 < x then \<lfloor>x\<rfloor> else 20 * 60 * 1000))
   \<and> (resolveWorksheetIds c None s = (Inr ids, s') \<longrightarrow>
         set ids = {w. \<exists>job\<in>set (pending_jobs s). select_job c s job = Inr (Some w)}
           \<union> set (scan_metadata c s (metadata_dir s))
           \<union> set (fst (scan_intake c (intake_dir s) s)))
   \<and> ((\<forall>entry\<in>set (pending_jobs s). names_id entry wid \<longrightarrow>
           field entry ''state'' = Some (JStr ''processing'') \<and> \<not> is_stale c entry)
        \<and> metadata_on_hold s wid \<and> resolveWorksheetIds c None s = (Inr ids, s') \<longrightarrow>
         wid \<notin> set ids)"
proof (intro conjI impI)
  assume a: "field job ''worksheet_id'' = Some (JStr w) \<and> js_trim w \<noteq> []
      \<and> field job ''state'' = Some (JStr ''processing'')"
  then show sel: "select_job c s job = Inr (if is_stale c job then Some (js_trim w) else None)"
    using select_job_processing by blast
  assume b: "job \<in> set (pending_jobs s) \<and> resolveWorksheetIds c None s = (Inr ids, s') \<and> is_stale c job"
  with sel have "\<exists>job\<in>set (pending_jobs s). select_job c s job = Inr (Some (js_trim w))"
    by auto
  with b resolve_set [of c s ids s'] show "js_trim w \<in> set ids" by blast
next
  assume "field job ''started_at'' = None"
  then show "is_stale c job" by (rule missing_started_is_stale)
next
  assume "started_ms c job = None"
  then show "is_stale c job" by (simp add: is_stale_def)
next
  assume "started_ms c job = Some t"
  then show "is_stale c job = (now_ms c - t \<ge> staleProcessingMs c)" by (simp add: is_stale_def)
next
  assume "PROCESSING_STALE_MS c = None"
  then show "staleProcessingMs c = 20 * 60 * 1000"
    by (simp add: staleProcessingMs_def parsePositiveInt_def)
next
  assume "PROCESSING_STALE_MS c = Some x"
  then show "staleProcessingMs c = (if 0 < x then \<lfloor>x\<rfloor> else 20 * 60 * 1000)"
    by (simp add: staleProcessingMs_def parsePositiveInt_def)
next
  assume "resolveWorksheetIds c None s = (Inr ids, s')"
  then show "set ids = {w. \<exists>job\<in>set (pending_jobs s). select_job c s job = Inr (Some w)}
           \<union> set (scan_metadata c s (metadata_dir s))
           \<union> set (fst (scan_intake c (intake_dir s) s))"
    by (rule resolve_set)
next
  assume "(\<forall>entry\<in>set (pending_jobs s). names_id entry wid \<longrightarrow>
           field entry ''state'' = Some (JStr ''processing'') \<and> \<not> is_stale c entry)
        \<and> metadata_on_hold s wid \<and> resolveWorksheetIds c None s = (Inr ids, s')"
  then show "wid \<notin> set ids" using fresh_not_resolved [of s wid c ids s'] by blast
qed

lemma old_job_facts:
  "field (JObj (processing_job ''2026-02-28T11:00:00.000Z'')) ''worksheet_id'' =
     Some (JStr ''ws_20260228_c0ffee'')"
  "js_trim ''ws_20260228_c0ffee'' = ''ws_20260228_c0ffee''"
  "field (JObj (processing_job ''2026-02-28T11:00:00.000Z'')) ''state'' = Some (JStr ''processing'')"
  "started_ms demo_env (JObj (processing_job ''2026-02-28T11:00:00.000Z'')) = Some 1772276400000"
  "now_ms demo_env - 1772276400000 \<ge> staleProcessingMs demo_env"
  "PROCESSING_STALE_MS demo_env = None"
  by code_simp+

lemma old_job_pending:
  "JObj (processing_job ''2026-02-28T11:00:00.000Z'')
     \<in> set (pending_jobs (one_job_store (processing_job ''2026-02-28T11:00:00.000Z'') processing_metadata))"
  by code_simp

lemma old_job_resolved:
  "fst (resolveWorksheetIds demo_env None
          (one_job_store (processing_job ''2026-02-28T11:00:00.000Z'') processing_metadata)) =
     Inr [''ws_20260228_c0ffee'']"
  by code_simp

lemma fresh_job_resolved:
  "fst (resolveWorksheetIds demo_env None
          (one_job_store (processing_job ''2026-02-28T11:50:00.000Z'') processing_metadata)) = Inr []"
  by code_simp

lemma fresh_job_pending:
  "pending_jobs (one_job_store (processing_job ''2026-02-28T11:50:00.000Z'') processing_metadata) =
     [JObj (processing_job ''2026-02-28T11:50:00.000Z'')]"
  by code_simp

lemma fresh_job_facts:
  "field (JObj (processing_job ''2026-02-28T11:50:00.000Z'')) ''state'' = Some (JStr ''processing'')"
  "started_ms demo_env (JObj (processing_job ''2026-02-28T11:50:00.000Z'')) = Some 1772279400000"
  "now_ms demo_env - 1772279400000 = 600000"
  "\<not> is_stale demo_env (JObj (processing_job ''2026-02-28T11:50:00.000Z''))"
  by code_simp+

lemma fresh_job_on_hold:
  "metadata_on_hold (one_job_store (processing_job ''2026-02-28T11:50:00.000Z'') processing_metadata)
     ''ws_20260228_c0ffee''"
  by code_simp

lemma half_ms: "PROCESSING_STALE_MS (demo_env\<lparr>PROCESSING_STALE_MS := Some (1 / 2)\<rparr>) = Some (1 / 2)"
  by simp

text \<open>The theorem at a job that was started an hour before the run; a job started ten
  minutes before the run, with its metadata in state \<open>processing\<close>, is not returned. A
  threshold of half a millisecond is a threshold of 0.\<close>

theorem stale_processing_reselected_witness:
  "is_stale demo_env (JObj (processing_job ''2026-02-28T11:00:00.000Z''))
   \<and> select_job demo_env
        (one_job_store (processing_job ''2026-02-28T11:00:00.000Z'') processing_metadata)
        (JObj (processing_job ''2026-02-28T11:00:00.000Z'')) = Inr (Some ''ws_20260228_c0ffee'')
   \<and> staleProcessingMs demo_env = 20 * 60 * 1000
   \<and> staleProcessingMs (demo_env\<lparr>PROCESSING_STALE_MS := Some (1 / 2)\<rparr>) = 0
   \<and> fst (resolveWorksheetIds demo_env None
          (one_job_store (processing_job ''2026-02-28T11:00:00.000Z'') processing_metadata)) =
        Inr [''ws_20260228_c0ffee'']
   \<and> ''ws_20260228_c0ffee'' \<notin> set (projr (fst (resolveWorksheetIds demo_env None
          (one_job_store (processing_job ''2026-02-28T11:50:00.000Z'') processing_metadata))))
   \<and> fst (resolveWorksheetIds demo_env None
          (one_job_store (processing_job ''2026-02-28T11:50:00.000Z'') processing_metadata)) = Inr []"
proof -
  let ?job = "JObj (processing_job ''2026-02-28T11:00:00.000Z'')"
  let ?s = "one_job_store (processing_job ''2026-02-28T11:00:00.000Z'') processing_metadata"
  let ?x = "resolveWorksheetIds demo_env None ?s"
  note t = stale_processing_reselected [of ?job "''ws_20260228_c0ffee''" demo_env ?s
      "[''ws_20260228_c0ffee'']" "snd ?x" 1772276400000]
  have ne: "js_trim ''ws_20260228_c0ffee'' \<noteq> []" unfolding old_job_facts(2) by simp
  have x: "?x = (Inr [''ws_20260228_c0ffee''], snd ?x)"
    using old_job_resolved by (cases ?x) auto
  from t old_job_facts(4,5) have st: "is_stale demo_env ?job" by blast
  from t old_job_facts(1,3) ne st
  have sel: "select_job demo_env ?s ?job = Inr (Some (js_trim ''ws_20260228_c0ffee''))" by auto
  from t old_job_facts(1,3) ne st old_job_pending x
  have mem: "js_trim ''ws_20260228_c0ffee'' \<in> set [''ws_20260228_c0ffee'']" by blast
  from t old_job_facts(6) have d: "staleProcessingMs demo_env = 20 * 60 * 1000" by blast
  let ?half = "demo_env\<lparr>PROCESSING_STALE_MS := Some (1 / 2)\<rparr>"
  note th = stale_processing_reselected [where c = ?half and x = "1 / 2"]
  from th half_ms
  have "staleProcessingMs ?half = (if 0 < (1 / 2 :: rat) then \<lfloor>1 / 2 :: rat\<rfloor> else 20 * 60 * 1000)"
    by blast
  then have h: "staleProcessingMs ?half = 0" by (simp add: floor_eq_iff)
  let ?f = "one_job_store (processing_job ''2026-02-28T11:50:00.000Z'') processing_metadata"
  let ?y = "resolveWorksheetIds demo_env None ?f"
  note tf = stale_processing_reselected [where c = demo_env and s = ?f
      and wid = "''ws_20260228_c0ffee''" and ids = "projr (fst ?y)" and s' = "snd ?y"]
  have y: "?y = (Inr (projr (fst ?y)), snd ?y)"
    using fresh_job_resolved by (cases ?y) auto
  have fresh: "\<forall>entry\<in>set (pending_jobs ?f). names_id entry ''ws_20260228_c0ffee'' \<longrightarrow>
           field entry ''state'' = Some (JStr ''processing'') \<and> \<not> is_stale demo_env entry"
    unfolding fresh_job_pending using fresh_job_facts(1,4) by simp
  from tf fresh fresh_job_on_hold y
  have out: "''ws_20260228_c0ffee'' \<notin> set (projr (fst ?y))" by blast
  from st sel d h old_job_resolved out fresh_job_resolved show ?thesis
    unfolding old_job_facts(2) by simp
qed

lemma boundary_facts:
  "staleProcessingMs demo_env = 1200000"
  "started_ms demo_env (JObj (processing_job ''2026-02-28T11:40:00.000Z'')) = Some 1772278800000"
  "now_ms demo_env - 1772278800000 = 1200000"
  by code_simp+

lemma boundary_resolved:
  "fst (resolveWorksheetIds demo_env None
          (one_job_store (processing_job ''2026-02-28T11:40:00.000Z'') processing_metadata)) =
     Inr [''ws_20260228_c0ffee'']"
  by code_simp

lemma fresh_failed_facts:
  "pending_jobs (one_job_store (processing_job ''2026-02-28T11:50:00.000Z'') capped_metadata) =
     [JObj (processing_job ''2026-02-28T11:50:00.000Z'')]"
  "select_job demo_env (one_job_store (processing_job ''2026-02-28T11:50:00.000Z'') capped_metadata)
     (JObj (processing_job ''2026-02-28T11:50:00.000Z'')) = Inr None"
  "scan_metadata demo_env (one_job_store (processing_job ''2026-02-28T11:50:00.000Z'') capped_metadata)
     (metadata_dir (one_job_store (processing_job ''2026-02-28T11:50:00.000Z'') capped_metadata)) =
     [''ws_20260228_c0ffee'']"
  "fst (resolveWorksheetIds demo_env None
          (one_job_store (processing_job ''2026-02-28T11:50:00.000Z'') capped_metadata)) =
     Inr [''ws_20260228_c0ffee'']"
  by code_simp+

text \<open>
  Claim C6 as it is stated fails in two places. At the threshold itself: a job started
  exactly 20 minutes before the run is not older than the threshold, and it is selected.
  And within the threshold: a job started 10 minutes before the run, whose metadata
  record is \<open>failed\<close> with a timeout of the network as \<open>last_error\<close>, is left out by the
  scan of the pending list and returned by the scan of the metadata directory.
\<close>

theorem stale_processing_reselected_counterexample:
  "staleProcessingMs demo_env = 1200000
   \<and> started_ms demo_env (JObj (processing_job ''2026-02-28T11:40:00.000Z'')) = Some 1772278800000
   \<and> now_ms demo_env - 1772278800000 = 1200000
   \<and> fst (resolveWorksheetIds demo_env None
          (one_job_store (processing_job ''2026-02-28T11:40:00.000Z'') processing_metadata)) =
        Inr [''ws_20260228_c0ffee'']
   \<and> pending_jobs (one_job_store (processing_job ''2026-02-28T11:50:00.000Z'') capped_metadata) =
        [JObj (processing_job ''2026-02-28T11:50:00.000Z'')]
   \<and> started_ms demo_env (JObj (processing_job ''2026-02-28T11:50:00.000Z'')) = Some 1772279400000
   \<and> now_ms demo_env - 1772279400000 = 600000
   \<and> select_job demo_env (one_job_store (processing_job ''2026-02-28T11:50:00.000Z'') capped_metadata)
        (JObj (processing_job ''2026-02-28T11:50:00.000Z'')) = Inr None
   \<and> scan_metadata demo_env (one_job_store (processing_job ''2026-02-28T11:50:00.000Z'') capped_metadata)
        (metadata_dir (one_job_store (processing_job ''2026-02-28T11:50:00.000Z'') capped_metadata)) =
        [''ws_20260228_c0ffee'']
   \<and> fst (resolveWorksheetIds demo_env None
          (one_job_store (processing_job ''2026-02-28T11:50:00.000Z'') capped_metadata)) =
        Inr [''ws_20260228_c0ffee'']"
  using boundary_facts boundary_resolved fresh_failed_facts fresh_job_facts(2,3)
  by blast

section \<open>Properties of the process supervisor\<close>

lemma fire_timers_keeps:
  "finished (fire_timers a t p) = finished p" "settled (fire_timers a t p) = settled p"
  "stdout (fire_timers a t p) = stdout p"
  by (auto simp: fire_timers_def on_timeout_def on_hard_kill_def Let_def split: option.splits)

lemma fire_timers_finished:
  "finished p \<Longrightarrow> kills (fire_timers a t p) = kills p"
  by (auto simp: fire_timers_def on_timeout_def on_hard_kill_def Let_def split: option.splits)

lemma handle_finished:
  "finished p \<Longrightarrow> finished (handle a ev p) \<and> settled (handle a ev p) = settled p
      \<and> kills (handle a ev p) = kills p"
  by (cases ev) (simp_all add: finalize_def)

lemma run_events_finished:
  "finished p \<Longrightarrow> finished (run_events a evs p) \<and> settled (run_events a evs p) = settled p
      \<and> kills (run_events a evs p) = kills p"
proof (induction evs arbitrary: p)
  case Nil
  then show ?case by simp
next
  case (Cons x evs)
  obtain t ev where x: "x = (t, ev)" by (cases x)
  let ?q = "handle a ev (fire_timers a t p)"
  from Cons.prems have f: "finished (fire_timers a t p)" by (simp add: fire_timers_keeps)
  from handle_finished [OF f, of a ev] Cons.prems
  have q: "finished ?q" "settled ?q = settled p" "kills ?q = kills p"
    by (simp_all add: fire_timers_keeps fire_timers_finished)
  from Cons.IH [OF q(1)] q show ?case by (simp add: x)
qed

lemma handle_quiet:
  "\<not> terminal ev \<Longrightarrow> timers_of (handle a ev p) = timers_of p \<and> settled (handle a ev p) = settled p"
  by (cases ev) (simp_all add: timers_of_def)

lemma run_events_quiet:
  "quiet evs \<Longrightarrow> finished (run_events a evs p) = finished p \<and> settled (run_events a evs p) = settled p"
proof (induction evs arbitrary: p)
  case Nil
  then show ?case by simp
next
  case (Cons x evs)
  obtain t ev where x: "x = (t, ev)" by (cases x)
  from Cons.prems x have nt: "\<not> terminal ev" and q: "quiet evs" by (simp_all add: quiet_def)
  from handle_quiet [OF nt, of a "fire_timers a t p"]
  have "finished (handle a ev (fire_timers a t p)) = finished p"
    "settled (handle a ev (fire_timers a t p)) = settled p"
    by (simp_all add: timers_of_def fire_timers_keeps)
  with Cons.IH [OF q, of "handle a ev (fire_timers a t p)"] show ?case by (simp add: x)
qed

lemma run_events_append:
  "run_events a (pre @ post) p = run_events a post (run_events a pre p)"
  by (induction pre arbitrary: p) auto

lemma split_first_terminal:
  "quiet evs \<or> (\<exists>pre t ev post. evs = pre @ (t, ev) # post \<and> quiet pre \<and> terminal ev)"
proof (induction evs)
  case Nil
  then show ?case by (simp add: quiet_def)
next
  case (Cons x evs)
  obtain t ev where x: "x = (t, ev)" by (cases x)
  show ?case
  proof (cases "terminal ev")
    case True
    then have "x # evs = [] @ (t, ev) # evs \<and> quiet [] \<and> terminal ev" by (simp add: x quiet_def)
    then show ?thesis by blast
  next
    case False
    from Cons.IH show ?thesis
    proof
      assume "quiet evs"
      with False show ?thesis by (simp add: x quiet_def)
    next
      assume "\<exists>pre t ev post. evs = pre @ (t, ev) # post \<and> quiet pre \<and> terminal ev"
      then obtain pre t' ev' post where h: "evs = pre @ (t', ev') # post" "quiet pre" "terminal ev'"
        by blast
      with False have "x # evs = (x # pre) @ (t', ev') # post \<and> quiet (x # pre) \<and> terminal ev'"
        by (simp add: x quiet_def)
      then show ?thesis by blast
    qed
  qed
qed

lemma initial_fresh: "\<not> finished (initial a)" "settled (initial a) = None" "kills (initial a) = []"
  by (simp_all add: initial_def)

lemma settled_first_terminal:
  assumes "quiet pre" "terminal ev"
  shows "settled (run_events a (pre @ (t, ev) # post) (initial a)) =
           settled (handle a ev (state_before a pre t))"
    and "kills (run_events a (pre @ (t, ev) # post) (initial a)) = kills (state_before a pre t)"
    and "finished (run_events a (pre @ (t, ev) # post) (initial a))"
proof -
  let ?q = "state_before a pre t"
  have nf: "\<not> finished ?q" "settled ?q = None"
    using run_events_quiet [OF assms(1), of a "initial a"]
    by (simp_all add: state_before_def fire_timers_keeps initial_fresh)
  have r: "run_events a (pre @ (t, ev) # post) (initial a) = run_events a post (handle a ev ?q)"
    by (simp add: run_events_append state_before_def)
  from assms(2) have h: "finished (handle a ev ?q)" "kills (handle a ev ?q) = kills ?q"
    using nf by (cases ev; simp add: finalize_def)+
  from run_events_finished [OF h(1), of a post] h(2) r
  show "settled (run_events a (pre @ (t, ev) # post) (initial a)) = settled (handle a ev ?q)"
    and "kills (run_events a (pre @ (t, ev) # post) (initial a)) = kills ?q"
    and "finished (run_events a (pre @ (t, ev) # post) (initial a))"
    by simp_all
qed

lemma timeoutMs_nonneg: "0 \<le> timeoutMs a"
  by (simp add: timeoutMs_def parsePositiveInt_def split: option.splits)

lemma grace_delay: "setTimeout_delay 5000 = 5000"
  by (simp add: setTimeout_delay_def)

lemma timer_due_pos: "0 < timer_due a"
  by (simp add: timer_due_def setTimeout_delay_def)

lemma timer_due_le: "0 < timeoutMs a \<Longrightarrow> timer_due a \<le> timeoutMs a"
  by (simp add: timer_due_def setTimeout_delay_def)

lemma timer_due_exact:
  "0 < timeoutMs a \<Longrightarrow> timeoutMs a \<le> 2147483647 \<Longrightarrow> timer_due a = timeoutMs a"
  by (simp add: timer_due_def setTimeout_delay_def)

lemma initial_timer:
  "timeoutId (initial a) = (if timeoutMs a > 0 then Some (timer_due a) else None)"
  "hardKillId (initial a) = None" "stderr (initial a) = []"
  by (simp_all add: initial_def timer_due_def)

lemma fire_at_zero: "fire_timers a 0 (initial a) = initial a"
  using timer_due_pos [of a] by (simp add: fire_timers_def initial_def timer_due_def)

lemma fire_twice:
  "t0 \<le> t \<Longrightarrow>
     timers_of (fire_timers a t (fire_timers a t0 (initial a))) = timers_of (fire_timers a t (initial a))"
  by (auto simp: fire_timers_def on_timeout_def on_hard_kill_def initial_def timers_of_def Let_def
        grace_delay)

lemma timers_cong:
  "timers_of p = timers_of q \<Longrightarrow> timers_of (fire_timers a t p) = timers_of (fire_timers a t q)"
  by (auto simp: fire_timers_def on_timeout_def on_hard_kill_def timers_of_def Let_def
           split: option.splits)

lemma kills_by: "kills (fire_timers a T (initial a)) = signals_by a T"
  by (auto simp: fire_timers_def on_timeout_def on_hard_kill_def initial_def signals_by_def Let_def
        grace_delay timer_due_def)

lemma quiet_timers:
  assumes "quiet evs" "sorted (map fst evs)" "\<forall>t\<in>set (map fst evs). t0 \<le> t \<and> t \<le> T" "t0 \<le> T"
    "timers_of p = timers_of (fire_timers a t0 (initial a))"
  shows "timers_of (fire_timers a T (run_events a evs p)) = timers_of (fire_timers a T (initial a))"
  using assms
proof (induction evs arbitrary: p t0)
  case Nil
  from timers_cong [OF Nil(5), of a T] fire_twice [OF Nil(4), of a] show ?case by simp
next
  case (Cons x evs)
  obtain t ev where x: "x = (t, ev)" by (cases x)
  from Cons.prems(1) x have nt: "\<not> terminal ev" and q: "quiet evs" by (simp_all add: quiet_def)
  from Cons.prems(3) x have t: "t0 \<le> t" "t \<le> T" by simp_all
  let ?p = "handle a ev (fire_timers a t p)"
  have "timers_of ?p = timers_of (fire_timers a t p)" using handle_quiet [OF nt] by simp
  also have "\<dots> = timers_of (fire_timers a t (fire_timers a t0 (initial a)))"
    using Cons.prems(5) by (rule timers_cong)
  also have "\<dots> = timers_of (fire_timers a t (initial a))" using t(1) by (rule fire_twice)
  finally have p: "timers_of ?p = timers_of (fire_timers a t (initial a))" .
  have s: "sorted (map fst evs)" and b: "\<forall>u\<in>set (map fst evs). t \<le> u \<and> u \<le> T"
    using Cons.prems(2,3) x by auto
  from Cons.IH [OF q s b t(2) p] show ?case by (simp add: x)
qed

lemma kills_quiet:
  assumes "quiet evs" "sorted (map fst evs)" "\<forall>t\<in>set (map fst evs). 0 \<le> t \<and> t \<le> T" "0 \<le> T"
  shows "kills (fire_timers a T (run_events a evs (initial a))) = signals_by a T"
proof -
  have "timers_of (initial a) = timers_of (fire_timers a 0 (initial a))" by (simp add: fire_at_zero)
  from quiet_timers [OF assms this]
  have "kills (fire_timers a T (run_events a evs (initial a))) = kills (fire_timers a T (initial a))"
    by (simp add: timers_of_def)
  then show ?thesis by (simp add: kills_by)
qed

lemma run_settled: "settled (run a timeline h) = settled (run_events a (visible timeline h) (initial a))"
  by (simp add: run_def visible_def fire_timers_keeps)

lemma settled_quiet: "quiet (visible timeline h) \<Longrightarrow> settled (run a timeline h) = None"
  using run_events_quiet [of "visible timeline h" a "initial a"]
  by (simp add: run_settled initial_fresh)

lemma state_before_fresh:
  "quiet pre \<Longrightarrow> \<not> finished (state_before a pre t) \<and> settled (state_before a pre t) = None"
  using run_events_quiet [of pre a "initial a"]
  by (simp add: state_before_def fire_timers_keeps initial_fresh)

lemma settled_close:
  assumes "visible timeline h = pre @ (t, Close code) # post" "quiet pre"
  shows "settled (run a timeline h) =
           Some (if code = Some 0
                 then Inr (stdout (state_before a pre t), stderr (state_before a pre t))
                 else Inl (new_Error (failure_text a code (stdout (state_before a pre t))
                                         (stderr (state_before a pre t)))))"
proof -
  have "settled (run a timeline h) = settled (handle a (Close code) (state_before a pre t))"
    unfolding run_settled assms(1) using settled_first_terminal(1) [OF assms(2)] by simp
  then show ?thesis using state_before_fresh [OF assms(2), of a t]
    by (simp add: finalize_def failure_text_def)
qed

lemma settled_error:
  assumes "visible timeline h = pre @ (t, ErrorEvent e) # post" "quiet pre"
  shows "settled (run a timeline h) = Some (Inl e)"
proof -
  have "settled (run a timeline h) = settled (handle a (ErrorEvent e) (state_before a pre t))"
    unfolding run_settled assms(1) using settled_first_terminal(1) [OF assms(2)] by simp
  then show ?thesis using state_before_fresh [OF assms(2), of a t]
    by (simp add: finalize_def)
qed

lemma resolved_only_on_zero:
  assumes "settled (run a timeline h) = Some (Inr r)"
  shows "\<exists>pre t post. visible timeline h = pre @ (t, Close (Some 0)) # post \<and> quiet pre
           \<and> r = (stdout (state_before a pre t), stderr (state_before a pre t))"
  using split_first_terminal [of "visible timeline h"]
proof
  assume "quiet (visible timeline h)"
  with assms show ?thesis by (simp add: settled_quiet)
next
  assume "\<exists>pre t ev post. visible timeline h = pre @ (t, ev) # post \<and> quiet pre \<and> terminal ev"
  then obtain pre t ev post where h: "visible timeline h = pre @ (t, ev) # post" "quiet pre"
    "terminal ev" by blast
  show ?thesis
  proof (cases ev)
    case (ErrorEvent e)
    with h assms settled_error [of timeline h pre t e post a] show ?thesis by simp
  next
    case (Close code)
    with h assms settled_close [of timeline h pre t code post a] show ?thesis
      by (auto split: if_splits)
  qed (use h(3) in simp_all)
qed

lemma stdout_run_events: "stdout (run_events a evs p) = stdout p @ stdout_chunks evs"
proof (induction evs arbitrary: p)
  case Nil
  then show ?case by (simp add: stdout_chunks_def)
next
  case (Cons x evs)
  obtain t ev where x: "x = (t, ev)" by (cases x)
  have "stdout (handle a ev q) = stdout q @ (case ev of StdoutData d \<Rightarrow> d | _ \<Rightarrow> [])" for q
    by (cases ev) (simp_all add: finalize_def)
  with Cons.IH [of "handle a ev (fire_timers a t p)"] show ?case
    by (simp add: x stdout_chunks_def fire_timers_keeps)
qed

lemma stdout_before: "stdout (state_before a pre t) = stdout_chunks pre"
  by (simp add: state_before_def fire_timers_keeps stdout_run_events initial_def)

lemma visible_sorted:
  assumes "sorted (map fst timeline)" "\<forall>t\<in>set (map fst timeline). 0 \<le> t"
  shows "sorted (map fst (visible timeline h))"
    and "\<forall>t\<in>set (map fst (visible timeline h)). 0 \<le> t \<and> t \<le> h"
  using assms by (auto simp: visible_def sorted_filter)

lemma kills_run_quiet:
  assumes "sorted (map fst timeline)" "\<forall>t\<in>set (map fst timeline). 0 \<le> t" "0 \<le> h"
    "quiet (visible timeline h)"
  shows "kills (run a timeline h) = signals_by a h"
  using kills_quiet [OF assms(4) visible_sorted [OF assms(1,2)] assms(3)]
  by (simp add: run_def visible_def)

lemma kills_run_terminal:
  assumes "sorted (map fst timeline)" "\<forall>t\<in>set (map fst timeline). 0 \<le> t" "0 \<le> h"
    "visible timeline h = pre @ (t, ev) # post" "quiet pre" "terminal ev"
  shows "kills (run a timeline h) = signals_by a t"
proof -
  from visible_sorted [OF assms(1,2), of h] assms(4)
  have s: "sorted (map fst (pre @ (t, ev) # post))"
    and b: "\<forall>u\<in>set (map fst (pre @ (t, ev) # post)). 0 \<le> u \<and> u \<le> h" by simp_all
  from s have sp: "sorted (map fst pre)" and le: "\<forall>u\<in>set (map fst pre). u \<le> t"
    by (auto simp: sorted_append)
  from b have t0: "0 \<le> t" by simp
  from b le have bp: "\<forall>u\<in>set (map fst pre). 0 \<le> u \<and> u \<le> t" by auto
  have fin: "finished (run_events a (visible timeline h) (initial a))"
    unfolding assms(4) using settled_first_terminal(3) [OF assms(5,6)] by simp
  have "kills (run a timeline h) = kills (run_events a (visible timeline h) (initial a))"
    using fire_timers_finished [OF fin] by (simp add: run_def visible_def)
  also have "\<dots> = kills (state_before a pre t)"
    unfolding assms(4) using settled_first_terminal(2) [OF assms(5,6)] by simp
  also have "\<dots> = signals_by a t"
    unfolding state_before_def using kills_quiet [OF assms(5) sp bp t0] .
  finally show ?thesis .
qed

lemma stderr_chunks_simps:
  "stderr_chunks [] = []"
  "stderr_chunks ((t, ev) # evs) = (case ev of StderrData d \<Rightarrow> d | _ \<Rightarrow> []) @ stderr_chunks evs"
  by (simp_all add: stderr_chunks_def)

lemma handle_stderr:
  "\<not> terminal ev \<Longrightarrow>
     stderr (handle a ev p) = stderr p @ (case ev of StderrData d \<Rightarrow> d | _ \<Rightarrow> [])
     \<and> timeoutId (handle a ev p) = timeoutId p \<and> finished (handle a ev p) = finished p"
  by (cases ev) simp_all

lemma fire_disarmed:
  "timeoutId p = None \<Longrightarrow>
     stderr (fire_timers a t p) = stderr p \<and> timeoutId (fire_timers a t p) = None"
  by (simp add: fire_timers_def on_hard_kill_def split: option.splits)

lemma fire_not_due:
  "timeoutId p = Some d \<Longrightarrow> t < d \<Longrightarrow>
     stderr (fire_timers a t p) = stderr p \<and> timeoutId (fire_timers a t p) = Some d"
  by (simp add: fire_timers_def on_hard_kill_def split: option.splits)

lemma fire_due:
  "timeoutId p = Some d \<Longrightarrow> d \<le> t \<Longrightarrow> \<not> finished p \<Longrightarrow>
     stderr (fire_timers a t p) = stderr p @ timeout_note a \<and> timeoutId (fire_timers a t p) = None"
  by (simp add: fire_timers_def on_timeout_def on_hard_kill_def timeout_note_def grace_delay
           Let_def split: option.splits)

text \<open>After the timeout timer has fired or was never armed, the captured standard error
  grows by the data of the child only.\<close>

lemma stderr_disarmed:
  "timeoutId p = None \<Longrightarrow> quiet evs \<Longrightarrow>
     stderr (fire_timers a T (run_events a evs p)) = stderr p @ stderr_chunks evs"
proof (induction evs arbitrary: p)
  case Nil
  then show ?case by (simp add: fire_disarmed stderr_chunks_simps)
next
  case (Cons x evs)
  obtain t ev where x: "x = (t, ev)" by (cases x)
  from Cons.prems(2) x have nt: "\<not> terminal ev" and q: "quiet evs" by (simp_all add: quiet_def)
  let ?p = "handle a ev (fire_timers a t p)"
  from handle_stderr [OF nt, of a "fire_timers a t p"] fire_disarmed [OF Cons.prems(1), of a t]
  have p: "timeoutId ?p = None" "stderr ?p = stderr p @ (case ev of StderrData d \<Rightarrow> d | _ \<Rightarrow> [])"
    by simp_all
  from Cons.IH [OF p(1) q] p(2) show ?case by (simp add: x stderr_chunks_simps)
qed

text \<open>While the timer is armed: the line of the timeout comes after the data of the events
  before the timer is due and before the data of the events from then on.\<close>

lemma stderr_armed:
  assumes "timeoutId p = Some d" "\<not> finished p" "quiet evs" "sorted (map fst evs)"
    "\<forall>u\<in>set (map fst evs). u \<le> T"
  shows "stderr (fire_timers a T (run_events a evs p)) =
           (if d \<le> T
            then stderr p @ stderr_chunks (filter (\<lambda>(u, ev). u < d) evs) @ timeout_note a
                   @ stderr_chunks (filter (\<lambda>(u, ev). d \<le> u) evs)
            else stderr p @ stderr_chunks evs)"
  using assms
proof (induction evs arbitrary: p)
  case Nil
  then show ?case
    by (cases "d \<le> T") (simp_all add: fire_due fire_not_due stderr_chunks_simps)
next
  case (Cons x evs)
  obtain t ev where x: "x = (t, ev)" by (cases x)
  from Cons.prems(3) x have nt: "\<not> terminal ev" and q: "quiet evs" by (simp_all add: quiet_def)
  from Cons.prems(4,5) x have s: "sorted (map fst evs)" and b: "\<forall>u\<in>set (map fst evs). u \<le> T"
    and tT: "t \<le> T" and later: "\<forall>u\<in>set (map fst evs). t \<le> u" by auto
  let ?chunk = "case ev of StderrData d \<Rightarrow> d | _ \<Rightarrow> []"
  let ?p = "handle a ev (fire_timers a t p)"
  show ?case
  proof (cases "t < d")
    case True
    from handle_stderr [OF nt, of a "fire_timers a t p"] fire_not_due [OF Cons.prems(1) True, of a]
      Cons.prems(2)
    have p: "timeoutId ?p = Some d" "\<not> finished ?p" "stderr ?p = stderr p @ ?chunk"
      by (simp_all add: fire_timers_keeps)
    from Cons.IH [OF p(1,2) q s b] p(3) True show ?thesis
      by (simp add: x stderr_chunks_simps)
  next
    case False
    then have dt: "d \<le> t" by simp
    from handle_stderr [OF nt, of a "fire_timers a t p"]
      fire_due [OF Cons.prems(1) dt Cons.prems(2), of a]
    have p: "timeoutId ?p = None" "stderr ?p = stderr p @ timeout_note a @ ?chunk"
      by simp_all
    from later dt have f1: "filter (\<lambda>(u, ev). u < d) evs = []"
      by (auto simp: filter_empty_conv)
    from later dt have f2: "filter (\<lambda>(u, ev). d \<le> u) evs = evs"
      by (auto simp: filter_id_conv)
    from stderr_disarmed [OF p(1) q, of a T] p(2) dt tT f1 f2 show ?thesis
      by (simp add: x stderr_chunks_simps)
  qed
qed

lemma stderr_before:
  assumes "quiet pre" "sorted (map fst pre)" "\<forall>u\<in>set (map fst pre). u \<le> t"
  shows "stderr (state_before a pre t) = stderr_by a pre t"
proof (cases "timeoutMs a > 0")
  case True
  then have armed: "timeoutId (initial a) = Some (timer_due a)" by (simp add: initial_timer)
  from stderr_armed [OF armed initial_fresh(1) assms, of a] True show ?thesis
    by (simp add: state_before_def stderr_by_def initial_timer)
next
  case False
  then have "timeoutId (initial a) = None" by (simp add: initial_timer)
  from stderr_disarmed [OF this assms(1), of a t] False show ?thesis
    by (simp add: state_before_def stderr_by_def initial_timer)
qed

lemma prefix_sorted:
  assumes "sorted (map fst timeline)" "visible timeline h = pre @ (t, ev) # post"
  shows "sorted (map fst pre)" "\<forall>u\<in>set (map fst pre). u \<le> t"
proof -
  from assms(1) have "sorted (map fst (visible timeline h))"
    by (simp add: visible_def sorted_filter)
  with assms(2) show "sorted (map fst pre)" "\<forall>u\<in>set (map fst pre). u \<le> t"
    by (auto simp: sorted_append)
qed

lemma stderr_run_terminal:
  assumes "sorted (map fst timeline)" "visible timeline h = pre @ (t, ev) # post" "quiet pre"
  shows "stderr (state_before a pre t) = stderr_by a pre t"
  using stderr_before [OF assms(3) prefix_sorted [OF assms(1,2)]] .

lemma demo_timeout: "timeoutMs demo_unzip = 60000" "timer_due demo_unzip = 60000"
  by (simp_all add: timer_due_def timeoutMs_def parsePositiveInt_def demo_unzip_def setTimeout_delay_def)

lemma show_60000: "show_int 60000 = ''60000''"
  by (simp add: show_int_def show_nat.simps [of 60000] show_nat.simps [of 6000]
        show_nat.simps [of 600] show_nat.simps [of 60] show_nat.simps [of 6] digits10_def)

lemma demo_cmd: "command_line demo_unzip = ''unzip -q original.zip -d work''"
  by (simp add: command_line_def demo_unzip_def)

lemma demo_note:
  "timeout_note demo_unzip = newline @ ''unzip -q original.zip -d work timed out after 60000ms''"
  unfolding timeout_note_def demo_timeout(1) show_60000 demo_cmd by simp

text \<open>
  Claim C8, as the code has it. The promise of \<open>run\<close> is resolved only by a \<open>close\<close>
  event with exit code 0 that comes before any other \<open>close\<close> or \<open>error\<close> event, and
  then with the output captured until then. A first \<open>close\<close> event with another exit
  code (or with none, after a signal) rejects it with an error whose message is the
  command line, the code and the captured \<open>stdout\<close> and \<open>stderr\<close>, trimmed; a first
  \<open>error\<close> event rejects it with that error, whatever the exit code that follows;
  without such an event it stays pending. The captured \<open>stdout\<close> is the data of the
  child; the captured \<open>stderr\<close> is the data of the child with the line of the timeout
  where the timer fired. The child is sent \<open>SIGTERM\<close> when the timeout timer is due
  before the promise is settled, and \<open>SIGKILL\<close> 5000 ms later if the promise is still
  not settled then; these are the only signals. The timer is due at the timeout, which
  is never later than the configured one: Node makes it 1 ms for a timeout above
  \<open>2\<^sup>3\<^sup>1 - 1\<close> ms.
\<close>

theorem run_supervises:
  "(settled (run a timeline h) = Some (Inr r) \<longrightarrow>
      (\<exists>pre t post. visible timeline h = pre @ (t, Close (Some 0)) # post \<and> quiet pre
         \<and> r = (stdout (state_before a pre t), stderr (state_before a pre t))))
   \<and> (visible timeline h = pre @ (t, Close code) # post \<and> quiet pre \<longrightarrow>
        settled (run a timeline h) =
          Some (if code = Some 0
                then Inr (stdout (state_before a pre t), stderr (state_before a pre t))
                else Inl (new_Error (failure_text a code (stdout (state_before a pre t))
                                        (stderr (state_before a pre t)))))
        \<and> stdout (state_before a pre t) = stdout_chunks pre)
   \<and> (visible timeline h = pre @ (t, ErrorEvent e) # post \<and> quiet pre \<longrightarrow>
        settled (run a timeline h) = Some (Inl e))
   \<and> (quiet (visible timeline h) \<longrightarrow> settled (run a timeline h) = None)
   \<and> (sorted (map fst timeline) \<and> (\<forall>u\<in>set (map fst timeline). 0 \<le> u) \<and> 0 \<le> h \<longrightarrow>
        (quiet (visible timeline h) \<longrightarrow> kills (run a timeline h) = signals_by a h)
        \<and> (visible timeline h = pre @ (t, ev) # post \<and> quiet pre \<and> terminal ev \<longrightarrow>
             kills (run a timeline h) = signals_by a t
             \<and> stderr (state_before a pre t) = stderr_by a pre t))
   \<and> (0 < timeoutMs a \<longrightarrow>
        0 < timer_due a \<and> timer_due a \<le> timeoutMs a
        \<and> (timeoutMs a \<le> 2147483647 \<longrightarrow> timer_due a = timeoutMs a))"
  using resolved_only_on_zero [of a timeline h r]
    settled_close [of timeline h pre t code post a] stdout_before [of a pre t]
    settled_error [of timeline h pre t e post a] settled_quiet [of timeline h a]
    kills_run_quiet [of timeline h a] kills_run_terminal [of timeline h pre t ev post a]
    stderr_run_terminal [of timeline h pre t ev post a]
    timer_due_pos [of a] timer_due_le [of a] timer_due_exact [of a]
  by blast

lemma demo_visible:
  "visible demo_extracted 100 = [(40, StdoutData ''inflating'')] @ (90, Close (Some 0)) # []"
  "visible demo_broken 100 =
     [(12, StderrData ''caution: ''), (15, StderrData ''cannot find zipfile directory'')]
       @ (20, Close (Some 9)) # []"
  "visible demo_hanging 70000 =
     [(40, StdoutData ''inflating''), (59000, StderrData ''slow''),
      (61000, StderrData ''Terminated'')] @ (65010, Close None) # []"
  "visible demo_hanging 60500 = [(40, StdoutData ''inflating''), (59000, StderrData ''slow'')]"
  "visible demo_kill_refused 90000 =
     [(40, StdoutData ''inflating'')]
       @ (60000, ErrorEvent (Err ''Error'' (Some ''EPERM'') ''kill EPERM''))
       # [(80000, Close (Some 1))]"
  by (simp_all add: visible_def demo_extracted_def demo_broken_def demo_hanging_def
        demo_kill_refused_def)

lemma demo_quiet:
  "quiet [(40, StdoutData ''inflating'')]"
  "quiet [(12, StderrData ''caution: ''), (15, StderrData ''cannot find zipfile directory'')]"
  "quiet [(40, StdoutData ''inflating''), (59000, StderrData ''slow''),
          (61000, StderrData ''Terminated'')]"
  "quiet [(40, StdoutData ''inflating''), (59000, StderrData ''slow'')]"
  by (simp_all add: quiet_def)

lemma demo_sorted:
  "sorted (map fst demo_extracted) \<and> (\<forall>u\<in>set (map fst demo_extracted). 0 \<le> u) \<and> (0::int) \<le> 100"
  "sorted (map fst demo_broken) \<and> (\<forall>u\<in>set (map fst demo_broken). 0 \<le> u) \<and> (0::int) \<le> 100"
  "sorted (map fst demo_hanging) \<and> (\<forall>u\<in>set (map fst demo_hanging). 0 \<le> u) \<and> (0::int) \<le> 70000"
  "sorted (map fst demo_hanging) \<and> (\<forall>u\<in>set (map fst demo_hanging). 0 \<le> u) \<and> (0::int) \<le> 60500"
  "sorted (map fst demo_kill_refused) \<and> (\<forall>u\<in>set (map fst demo_kill_refused). 0 \<le> u)
     \<and> (0::int) \<le> 90000"
  by (simp_all add: demo_extracted_def demo_broken_def demo_hanging_def demo_kill_refused_def)

lemma demo_chunks:
  "stdout_chunks [(40, StdoutData ''inflating'')] = ''inflating''"
  "stdout_chunks [(12, StderrData ''caution: ''), (15, StderrData ''cannot find zipfile directory'')]
     = []"
  "stdout_chunks [(40, StdoutData ''inflating''), (59000, StderrData ''slow''),
                  (61000, StderrData ''Terminated'')] = ''inflating''"
  by (simp_all add: stdout_chunks_def)

lemma demo_stderr:
  "stderr_by demo_unzip [(40, StdoutData ''inflating'')] 90 = []"
  "stderr_by demo_unzip
     [(12, StderrData ''caution: ''), (15, StderrData ''cannot find zipfile directory'')] 20 =
     ''caution: cannot find zipfile directory''"
  "stderr_by demo_unzip [(40, StdoutData ''inflating''), (59000, StderrData ''slow''),
                         (61000, StderrData ''Terminated'')] 65010 =
     ''slow'' @ timeout_note demo_unzip @ ''Terminated''"
  by (simp_all add: stderr_by_def demo_timeout stderr_chunks_def)

lemma demo_signals:
  "signals_by demo_unzip 90 = []"
  "signals_by demo_unzip 65010 = [(60000, SIGTERM), (65000, SIGKILL)]"
  "signals_by demo_unzip 60500 = [(60000, SIGTERM)]"
  "signals_by demo_unzip 60000 = [(60000, SIGTERM)]"
  by (simp_all add: signals_by_def demo_timeout)

text \<open>The theorem at \<open>unzip\<close> with a timeout of one minute: an archive that is
  extracted, one that is broken, a child that hangs and is killed, and a child that
  cannot be signalled.\<close>

theorem run_supervises_witness:
  "settled (run demo_unzip demo_extracted 100) = Some (Inr (''inflating'', []))
   \<and> kills (run demo_unzip demo_extracted 100) = []
   \<and> (\<exists>pre t post. visible demo_extracted 100 = pre @ (t, Close (Some 0)) # post \<and> quiet pre)
   \<and> settled (run demo_unzip demo_broken 100) =
       Some (Inl (new_Error (failure_text demo_unzip (Some 9) []
                               ''caution: cannot find zipfile directory'')))
   \<and> settled (run demo_unzip demo_hanging 70000) =
       Some (Inl (new_Error (failure_text demo_unzip None ''inflating''
                               (''slow'' @ timeout_note demo_unzip @ ''Terminated''))))
   \<and> kills (run demo_unzip demo_hanging 70000) = [(60000, SIGTERM), (65000, SIGKILL)]
   \<and> settled (run demo_unzip demo_hanging 60500) = None
   \<and> kills (run demo_unzip demo_hanging 60500) = [(60000, SIGTERM)]
   \<and> settled (run demo_unzip demo_kill_refused 90000) =
       Some (Inl (Err ''Error'' (Some ''EPERM'') ''kill EPERM''))
   \<and> kills (run demo_unzip demo_kill_refused 90000) = [(60000, SIGTERM)]
   \<and> timer_due demo_unzip = 60000
   \<and> timeout_note demo_unzip =
       newline @ ''unzip -q original.zip -d work timed out after 60000ms''"
proof -
  let ?out = "[(40, StdoutData ''inflating'')]"
  let ?err = "[(12, StderrData ''caution: ''), (15, StderrData ''cannot find zipfile directory'')]"
  let ?hang = "[(40, StdoutData ''inflating''), (59000, StderrData ''slow''),
                (61000, StderrData ''Terminated'')]"
  let ?eperm = "Err ''Error'' (Some ''EPERM'') ''kill EPERM''"
  note t1 = run_supervises [of demo_unzip demo_extracted 100 "(''inflating'', [])" ?out 90
      "Some 0" "[]" undefined "Close (Some 0)"]
  note t1_close = t1 [THEN conjunct2, THEN conjunct1, rule_format]
  note t1_term = t1 [THEN conjunct2, THEN conjunct2, THEN conjunct2, THEN conjunct2,
      THEN conjunct1, THEN mp, OF demo_sorted(1), THEN conjunct2, THEN mp]
  have v1: "visible demo_extracted 100 = ?out @ (90, Close (Some 0)) # [] \<and> quiet ?out"
    using demo_visible(1) demo_quiet(1) by simp
  have k1: "kills (run demo_unzip demo_extracted 100) = signals_by demo_unzip 90"
    and e1: "stderr (state_before demo_unzip ?out 90) = stderr_by demo_unzip ?out 90"
    using t1_term v1 by simp_all
  have a: "settled (run demo_unzip demo_extracted 100) = Some (Inr (''inflating'', []))"
    using t1_close [OF v1] e1 by (simp add: demo_chunks demo_stderr)
  have b: "kills (run demo_unzip demo_extracted 100) = []"
    using k1 by (simp add: demo_signals)
  have a': "\<exists>pre t post. visible demo_extracted 100 = pre @ (t, Close (Some 0)) # post \<and> quiet pre"
    using t1 [THEN conjunct1, THEN mp, OF a] by blast
  note t2 = run_supervises [of demo_unzip demo_broken 100 undefined ?err 20
      "Some 9" "[]" undefined "Close (Some 9)"]
  note t2_close = t2 [THEN conjunct2, THEN conjunct1, rule_format]
  note t2_term = t2 [THEN conjunct2, THEN conjunct2, THEN conjunct2, THEN conjunct2,
      THEN conjunct1, THEN mp, OF demo_sorted(2), THEN conjunct2, THEN mp]
  have v2: "visible demo_broken 100 = ?err @ (20, Close (Some 9)) # [] \<and> quiet ?err"
    using demo_visible(2) demo_quiet(2) by simp
  have e2: "stderr (state_before demo_unzip ?err 20) = stderr_by demo_unzip ?err 20"
    using t2_term v2 by simp
  have c: "settled (run demo_unzip demo_broken 100) =
      Some (Inl (new_Error (failure_text demo_unzip (Some 9) []
                              ''caution: cannot find zipfile directory'')))"
    using t2_close [OF v2] e2 by (simp add: demo_chunks demo_stderr)
  note t3 = run_supervises [of demo_unzip demo_hanging 70000 undefined ?hang 65010
      None "[]" undefined "Close None"]
  note t3_close = t3 [THEN conjunct2, THEN conjunct1, rule_format]
  note t3_term = t3 [THEN conjunct2, THEN conjunct2, THEN conjunct2, THEN conjunct2,
      THEN conjunct1, THEN mp, OF demo_sorted(3), THEN conjunct2, THEN mp]
  have v3: "visible demo_hanging 70000 = ?hang @ (65010, Close None) # [] \<and> quiet ?hang"
    using demo_visible(3) demo_quiet(3) by simp
  have k3: "kills (run demo_unzip demo_hanging 70000) = signals_by demo_unzip 65010"
    and e3: "stderr (state_before demo_unzip ?hang 65010) = stderr_by demo_unzip ?hang 65010"
    using t3_term v3 by simp_all
  have d: "settled (run demo_unzip demo_hanging 70000) =
      Some (Inl (new_Error (failure_text demo_unzip None ''inflating''
                              (''slow'' @ timeout_note demo_unzip @ ''Terminated''))))"
    using t3_close [OF v3] e3 by (simp add: demo_chunks demo_stderr)
  have d': "kills (run demo_unzip demo_hanging 70000) = [(60000, SIGTERM), (65000, SIGKILL)]"
    using k3 by (simp add: demo_signals)
  note t4 = run_supervises [of demo_unzip demo_hanging 60500 undefined undefined undefined
      undefined undefined undefined undefined]
  note t4_quiet = t4 [THEN conjunct2, THEN conjunct2, THEN conjunct2, THEN conjunct1, rule_format]
  note t4_kills = t4 [THEN conjunct2, THEN conjunct2, THEN conjunct2, THEN conjunct2,
      THEN conjunct1, THEN mp, OF demo_sorted(4), THEN conjunct1, THEN mp]
  have q4: "quiet (visible demo_hanging 60500)" unfolding demo_visible(4) by (rule demo_quiet(4))
  have e: "settled (run demo_unzip demo_hanging 60500) = None" using t4_quiet [OF q4] .
  have f: "kills (run demo_unzip demo_hanging 60500) = [(60000, SIGTERM)]"
    using t4_kills [OF q4] by (simp add: demo_signals)
  note t5 = run_supervises [of demo_unzip demo_kill_refused 90000 undefined ?out 60000
      undefined "[(80000, Close (Some 1))]" ?eperm "ErrorEvent ?eperm"]
  note t5_error = t5 [THEN conjunct2, THEN conjunct2, THEN conjunct1, rule_format]
  note t5_term = t5 [THEN conjunct2, THEN conjunct2, THEN conjunct2, THEN conjunct2,
      THEN conjunct1, THEN mp, OF demo_sorted(5), THEN conjunct2, THEN mp]
  have v5: "visible demo_kill_refused 90000 =
      ?out @ (60000, ErrorEvent ?eperm) # [(80000, Close (Some 1))] \<and> quiet ?out"
    using demo_visible(5) demo_quiet(1) by simp
  have g: "settled (run demo_unzip demo_kill_refused 90000) = Some (Inl ?eperm)"
    using t5_error [OF v5] .
  have g': "kills (run demo_unzip demo_kill_refused 90000) = [(60000, SIGTERM)]"
    using t5_term v5 by (simp add: demo_signals)
  have due: "timer_due demo_unzip = 60000"
    using t5 [THEN conjunct2, THEN conjunct2, THEN conjunct2, THEN conjunct2, THEN conjunct2]
    by (simp add: demo_timeout(1))
  from a b a' c d d' e f g g' due demo_note show ?thesis by blast
qed

text \<open>
  Claim C8 as it is stated fails where \<open>child.kill("SIGTERM")\<close> does not succeed. The
  child writes to its standard output and hangs; at the timeout of 60000 ms the signal
  is refused with \<open>EPERM\<close>, which the child object reports as an \<open>error\<close> event; the
  child ends 20 seconds later with exit code 1. The promise is rejected with the error
  of the \<open>error\<close> event, whose message has nothing of the captured output, and no
  \<open>SIGKILL\<close> follows the \<open>SIGTERM\<close>, though the child is there for 20 seconds more.
\<close>

theorem run_supervises_counterexample:
  "timeoutMs demo_unzip = 60000
   \<and> demo_kill_refused = [(40, StdoutData ''inflating''),
                          (60000, ErrorEvent (Err ''Error'' (Some ''EPERM'') ''kill EPERM'')),
                          (80000, Close (Some 1))]
   \<and> stdout (run demo_unzip demo_kill_refused 90000) = ''inflating''
   \<and> settled (run demo_unzip demo_kill_refused 90000) =
       Some (Inl (Err ''Error'' (Some ''EPERM'') ''kill EPERM''))
   \<and> kills (run demo_unzip demo_kill_refused 90000) = [(60000, SIGTERM)]"
  by (simp add: run_def demo_kill_refused_def fire_timers_def on_timeout_def on_hard_kill_def
        initial_def demo_timeout(1) setTimeout_delay_def finalize_def Let_def)

end
